theory Spec2Isabelle
  imports Complex_Main
begin

section \<open>Strings and the standard library\<close>

text \<open>
  A Go string is a sequence of bytes; \<open>string\<close> (a list of 8-bit characters) models it.
\<close>

definition lower :: "char \<Rightarrow> char" where
  "lower c =
     (case map_of (zip ''ABCDEFGHIJKLMNOPQRSTUVWXYZ'' ''abcdefghijklmnopqrstuvwxyz'') c of
        None \<Rightarrow> c
      | Some l \<Rightarrow> l)"

text \<open>
  \<open>strings.ToLower\<close> on a string of ASCII bytes: \<open>A\<close> to \<open>Z\<close> become \<open>a\<close> to \<open>z\<close>,
  every other byte is kept. On a string with a byte outside ASCII Go decodes the runes
  and folds them with the Unicode tables (the rune U+0130 becomes \<open>i\<close>, U+212A becomes
  \<open>k\<close>); those tables are not part of this theory, and \<open>strings_ToLower\<close> is evaluated
  below on ASCII strings only. The resolver does not call it: it takes the folding as a
  parameter, as it takes the parsers.
\<close>

definition strings_ToLower :: "string \<Rightarrow> string" where
  "strings_ToLower s = map lower s"

text \<open>Durations are Go's \<open>time.Duration\<close>: a count of nanoseconds.\<close>

type_synonym Duration = int

definition Millisecond :: Duration where "Millisecond = 1000000"
definition Second :: Duration where "Second = 1000000000"

text \<open>
  The errors of \<open>strconv\<close> and \<open>time\<close>, and the run-time panics: an index out of range,
  a name registered twice, and \<open>time.NewTicker\<close> called with a duration that is not
  positive.
\<close>

datatype error = ErrSyntax | ErrRange | ErrInvalidDuration | ErrOther string

datatype panic = IndexOutOfRange | AlreadyRegistered | NonPositiveTicker

text \<open>
  The functions of the Go standard library that the resolver calls:
  \<open>time.ParseDuration\<close>, \<open>strconv.Atoi\<close> and \<open>strings.ToLower\<close>. The resolver takes them
  as parameters; the parsers return Go's pair of a value and an optional error. Every
  general theorem below holds for arbitrary such functions, so for Go's own; the
  concrete models \<open>time_ParseDuration\<close>, \<open>strconv_Atoi\<close> and \<open>strings_ToLower\<close> are used
  to evaluate the resolver on concrete queries.
\<close>

record stdlib =
  ParseDuration :: "string \<Rightarrow> Duration \<times> error option"
  Atoi :: "string \<Rightarrow> int \<times> error option"
  ToLower :: "string \<Rightarrow> string"

subsection \<open>A model of \<open>strconv.Atoi\<close> (64-bit \<open>int\<close>)\<close>

definition is_digit :: "char \<Rightarrow> bool" where
  "is_digit c = (48 \<le> (of_char c :: nat) \<and> (of_char c :: nat) \<le> 57)"

definition digit_val :: "char \<Rightarrow> nat" where
  "digit_val c = of_char c - 48"

definition maxUint64 :: nat where "maxUint64 = 18446744073709551615"

text \<open>
  \<open>strconv.ParseUint\<close> in base 10 and 64 bits: the loop over the bytes, with the
  accumulator \<open>n\<close>. A byte that is no digit is a syntax error; an overflow of the
  accumulator is a range error, reported as soon as it happens.
\<close>

fun ParseUint_loop :: "nat \<Rightarrow> string \<Rightarrow> nat \<times> error option" where
  "ParseUint_loop n [] = (n, None)"
| "ParseUint_loop n (c # cs) =
     (if \<not> is_digit c then (0, Some ErrSyntax)
      else if n \<ge> maxUint64 div 10 + 1 then (maxUint64, Some ErrRange)
      else let n1 = n * 10 + digit_val c in
        if n1 > maxUint64 then (maxUint64, Some ErrRange)
        else ParseUint_loop n1 cs)"

definition ParseUint :: "string \<Rightarrow> nat \<times> error option" where
  "ParseUint s = (if s = [] then (0, Some ErrSyntax) else ParseUint_loop 0 s)"

text \<open>
  \<open>strconv.ParseInt(s, 10, 0)\<close>: an optional sign, then \<open>ParseUint\<close>; a value outside
  the 64-bit range comes back clamped, with a range error. \<open>Atoi\<close> is this function (its
  fast path for short strings computes the same result).
\<close>

definition ParseInt :: "string \<Rightarrow> int \<times> error option" where
  "ParseInt s =
     (if s = [] then (0, Some ErrSyntax)
      else let neg = (hd s = CHR ''-'');
               s' = (if hd s = CHR ''+'' \<or> hd s = CHR ''-'' then tl s else s);
               cutoff = (2 :: nat) ^ 63
           in case ParseUint s' of
                (un, Some ErrRange) \<Rightarrow>
                  (if neg then (- int cutoff, Some ErrRange) else (int cutoff - 1, Some ErrRange))
              | (un, Some e) \<Rightarrow> (0, Some e)
              | (un, None) \<Rightarrow>
                  (if \<not> neg \<and> un \<ge> cutoff then (int cutoff - 1, Some ErrRange)
                   else if neg \<and> un > cutoff then (- int cutoff, Some ErrRange)
                   else if neg then (- int un, None) else (int un, None)))"

definition strconv_Atoi :: "string \<Rightarrow> int \<times> error option" where
  "strconv_Atoi s = ParseInt s"

subsection \<open>A model of \<open>time.ParseDuration\<close>\<close>

text \<open>\<open>leadingInt\<close> consumes the leading digits; \<open>None\<close> is its overflow error.\<close>

fun leadingInt :: "nat \<Rightarrow> string \<Rightarrow> (nat \<times> string) option" where
  "leadingInt x [] = Some (x, [])"
| "leadingInt x (c # cs) =
     (if \<not> is_digit c then Some (x, c # cs)
      else if x > 2 ^ 63 div 10 then None
      else let y = x * 10 + digit_val c in
        if y > 2 ^ 63 then None else leadingInt y cs)"

text \<open>
  \<open>leadingFraction\<close> consumes the digits after the point: the value \<open>x\<close> and the
  \<open>scale\<close>, a power of ten; digits that would overflow are read and dropped.
\<close>

fun leadingFraction :: "nat \<Rightarrow> nat \<Rightarrow> bool \<Rightarrow> string \<Rightarrow> nat \<times> nat \<times> string" where
  "leadingFraction x scale overflow [] = (x, scale, [])"
| "leadingFraction x scale overflow (c # cs) =
     (if \<not> is_digit c then (x, scale, c # cs)
      else if overflow then leadingFraction x scale True cs
      else if x > (2 ^ 63 - 1) div 10 then leadingFraction x scale True cs
      else let y = x * 10 + digit_val c in
        if y > 2 ^ 63 then leadingFraction x scale True cs
        else leadingFraction y (scale * 10) False cs)"

text \<open>The units, in nanoseconds; the two spellings of the micro sign are UTF-8 bytes.\<close>

definition unitMap :: "string \<Rightarrow> nat option" where
  "unitMap u =
     (if u = ''ns'' then Some 1
      else if u = ''us'' then Some 1000
      else if u = [char_of (194 :: nat), char_of (181 :: nat), CHR ''s''] then Some 1000
      else if u = [char_of (206 :: nat), char_of (188 :: nat), CHR ''s''] then Some 1000
      else if u = ''ms'' then Some 1000000
      else if u = ''s'' then Some 1000000000
      else if u = ''m'' then Some 60000000000
      else if u = ''h'' then Some 3600000000000
      else None)"

definition unit_char :: "char \<Rightarrow> bool" where
  "unit_char c = (c \<noteq> CHR ''.'' \<and> \<not> is_digit c)"

lemma leadingInt_length: "leadingInt x s = Some (v, r) \<Longrightarrow> length r \<le> length s"
  by (induction x s rule: leadingInt.induct) (auto simp: Let_def split: if_splits)

lemma leadingFraction_length: "leadingFraction x sc ov s = (f, sc', r) \<Longrightarrow> length r \<le> length s"
  by (induction x sc ov s rule: leadingFraction.induct) (auto simp: Let_def split: if_splits)

lemma dropWhile_shorter: "takeWhile P s \<noteq> [] \<Longrightarrow> length (dropWhile P s) < length s"
  by (cases s) (auto simp: le_imp_less_Suc length_dropWhile_le split: if_splits)

text \<open>
  The loop of \<open>ParseDuration\<close> over the terms \<open>[0-9]*(\.[0-9]*)?[a-z]+\<close> of the string,
  with the sum \<open>d\<close> so far, a \<open>uint64\<close>: the additions wrap around at \<open>2 ^ 64\<close>. Go
  computes the contribution of the fraction in \<open>float64\<close>; the model takes the exact
  quotient \<open>f * unit div scale\<close>, which is what Go computes whenever that product is
  exact. No theorem below depends on a fraction.
\<close>

function ParseDuration_loop :: "nat \<Rightarrow> string \<Rightarrow> nat option" where
  "ParseDuration_loop d s =
     (if s = [] then Some d
      else if \<not> (hd s = CHR ''.'' \<or> is_digit (hd s)) then None
      else case leadingInt 0 s of
        None \<Rightarrow> None
      | Some (v, s1) \<Rightarrow>
         (let pre = (length s \<noteq> length s1);
              frac = (if s1 \<noteq> [] \<and> hd s1 = CHR ''.'' then leadingFraction 0 1 False (tl s1)
                      else (0, 1, s1));
              f = fst frac; scale = fst (snd frac); s2 = snd (snd frac);
              post = (s1 \<noteq> [] \<and> hd s1 = CHR ''.'' \<and> length (tl s1) \<noteq> length s2);
              u = takeWhile unit_char s2;
              s3 = dropWhile unit_char s2
          in if \<not> pre \<and> \<not> post then None
             else if u = [] then None
             else case unitMap u of
               None \<Rightarrow> None
             | Some unit \<Rightarrow>
                 if v > 2 ^ 63 div unit then None
                 else let v1 = (v * unit + (if f > 0 then (f * unit) div scale else 0))
                                 mod 2 ^ 64;
                          d1 = (d + v1) mod 2 ^ 64 in
                   if f > 0 \<and> v1 > 2 ^ 63 then None
                   else if d1 > 2 ^ 63 then None
                   else ParseDuration_loop d1 s3))"
  by pat_completeness auto

termination ParseDuration_loop
proof (relation "measure (\<lambda>(d, s). length s)", goal_cases)
  case 1
  show ?case by simp
next
  case prems: (2 d s x2 v s1 pre frac f scale s2 post u s3 unit v1 d1)
  have a: "length s1 \<le> length s"
    using prems(3,4) leadingInt_length by auto
  have b: "length s2 \<le> length s1"
  proof (cases "s1 \<noteq> [] \<and> hd s1 = CHR ''.''")
    case True
    then have "leadingFraction 0 1 False (tl s1) = (f, scale, s2)"
      using prems by (simp add: prod_eq_iff)
    then have "length s2 \<le> length (tl s1)"
      by (rule leadingFraction_length)
    then show ?thesis by simp
  next
    case False
    then show ?thesis using prems by auto
  qed
  have "takeWhile unit_char s2 \<noteq> []"
    using prems(11,14) by simp
  then have c: "length s3 < length s2"
    using prems(12) dropWhile_shorter [of unit_char s2] by simp
  show ?case using a b c by simp
qed

declare ParseDuration_loop.simps [simp del]

text \<open>
  \<open>time.ParseDuration\<close>: an optional sign, the special case \<open>"0"\<close>, then the terms. A
  negative duration is accepted; the errors of Go (invalid duration, missing unit,
  unknown unit) are one error value here.
\<close>

definition time_ParseDuration :: "string \<Rightarrow> Duration \<times> error option" where
  "time_ParseDuration orig =
     (let neg = (orig \<noteq> [] \<and> hd orig = CHR ''-'');
          s = (if orig \<noteq> [] \<and> (hd orig = CHR ''-'' \<or> hd orig = CHR ''+'') then tl orig
               else orig)
      in if s = ''0'' then (0, None)
         else if s = [] then (0, Some ErrInvalidDuration)
         else case ParseDuration_loop 0 s of
           None \<Rightarrow> (0, Some ErrInvalidDuration)
         | Some d \<Rightarrow>
             if neg then (- int d, None)
             else if d > 2 ^ 63 - 1 then (0, Some ErrInvalidDuration)
             else (int d, None))"

definition go :: stdlib where
  "go = \<lparr>ParseDuration = time_ParseDuration, Atoi = strconv_Atoi,
         ToLower = strings_ToLower\<rparr>"

section \<open>The parameter resolver\<close>

text \<open>
  \<open>r.URL.Query()\<close> is a \<open>url.Values\<close>, a Go map from a key to the list of its values.
  The model is the list of the map's entries in the order in which \<open>range\<close> visits them;
  Go leaves that order open, so a theorem about every list is a theorem about every
  order. A map has each key once, and \<open>url.ParseQuery\<close> never stores an empty list of
  values: \<open>Values_ok\<close>.
\<close>

type_synonym Values = "(string \<times> string list) list"

definition Values_ok :: "Values \<Rightarrow> bool" where
  "Values_ok q = (distinct (map fst q) \<and> [] \<notin> set (map snd q))"

definition Get :: "Values \<Rightarrow> string \<Rightarrow> string" where
  "Get q key = (case map_of q key of None \<Rightarrow> [] | Some [] \<Rightarrow> [] | Some (v # vs) \<Rightarrow> v)"

text \<open>The descriptor; \<open>psize\<close> is the field \<open>size\<close> of the source.\<close>

record pingParams =
  target :: string
  timeout :: Duration
  interval :: Duration
  count :: int
  psize :: int
  ttl :: int
  protocol :: string
  packet :: string

text \<open>What the resolver logs: the level, the format and the arguments of each call.\<close>

datatype level = DebugLevel | InfoLevel | WarnLevel | ErrorLevel

datatype arg = AStr string | AInt int

type_synonym entry = "level \<times> string \<times> arg list"

definition defaultTimeout :: Duration where "defaultTimeout = Second * 10"
definition defaultInterval :: Duration where "defaultInterval = Second"
definition defaultCount :: int where "defaultCount = 5"
definition defaultSize :: int where "defaultSize = 56"
definition defaultTTL :: int where "defaultTTL = 64"
definition defaultProtocol :: string where "defaultProtocol = ''ip4''"
definition defaultPacket :: string where "defaultPacket = ''icmp''"
definition minPacketSize :: int where "minPacketSize = 24"

text \<open>\<open>maxPacketSize\<close> of \<open>internal/collector/icmp_collector.go\<close> and of \<open>unnamed/part_000\<close>.\<close>

definition maxPacketSize :: int where "maxPacketSize = 65507"
definition maxPacketSize_unnamed :: int where "maxPacketSize_unnamed = 1024"

text \<open>\<open>v[0]\<close>, which panics on an empty slice, followed by the rest of the \<open>case\<close>.\<close>

definition index0 :: "string list \<Rightarrow> (string \<Rightarrow> 'a) \<Rightarrow> panic + 'a" where
  "index0 v f = (case v of [] \<Rightarrow> Inl IndexOutOfRange | v0 # vs \<Rightarrow> Inr (f v0))"

text \<open>A \<open>for ... range\<close> loop whose body may panic.\<close>

fun range_loop :: "('s \<Rightarrow> 'e \<Rightarrow> panic + 's) \<Rightarrow> 's \<Rightarrow> 'e list \<Rightarrow> panic + 's" where
  "range_loop body s [] = Inr s"
| "range_loop body s (x # xs) =
     (case body s x of Inl e \<Rightarrow> Inl e | Inr s' \<Rightarrow> range_loop body s' xs)"

text \<open>
  The \<open>switch\<close> of \<open>parseParams\<close> in \<open>internal/collector/icmp_collector.go\<close>, on one entry
  \<open>(k, v)\<close> of the map, with the descriptor \<open>p\<close> and the log so far.
\<close>

definition parseParams_switch ::
  "stdlib \<Rightarrow> pingParams \<times> entry list \<Rightarrow> string \<times> string list \<Rightarrow> panic + (pingParams \<times> entry list)"
where
  "parseParams_switch L st kv =
     (case st of (p, lg) \<Rightarrow> case kv of (k, v) \<Rightarrow>
       (let key = ToLower L k in
        if key = ''target'' then index0 v (\<lambda>v0. (p\<lparr>target := v0\<rparr>, lg))
        else if key = ''timeout'' then index0 v (\<lambda>v0.
          case ParseDuration L v0 of
            (duration, None) \<Rightarrow> (p\<lparr>timeout := duration\<rparr>, lg)
          | (duration, Some err) \<Rightarrow>
              (p, lg @ [(ErrorLevel, ''Expected duration in seconds (e.g., 5s). Got: %v'',
                         [AStr v0])]))
        else if key = ''interval'' then index0 v (\<lambda>v0.
          case ParseDuration L v0 of
            (duration, None) \<Rightarrow> (p\<lparr>interval := duration\<rparr>, lg)
          | (duration, Some err) \<Rightarrow>
              (p, lg @ [(WarnLevel,
                         ''Expected duration in seconds (e.g., 5s). Got: %v. Using default 1s.'',
                         [AStr v0])]))
        else if key = ''count'' then index0 v (\<lambda>v0.
          case Atoi L v0 of (count', err) \<Rightarrow>
            if err = None \<and> count' > 0 then (p\<lparr>count := count'\<rparr>, lg)
            else (p\<lparr>count := defaultCount\<rparr>, lg))
        else if key = ''size'' then index0 v (\<lambda>v0.
          case Atoi L v0 of (size', err) \<Rightarrow>
            if err = None \<and> size' \<le> maxPacketSize \<and> size' \<ge> minPacketSize
            then (p\<lparr>psize := size'\<rparr>, lg)
            else (p\<lparr>psize := defaultSize\<rparr>,
                  lg @ [(WarnLevel,
                         ''Received request for illegal packet size %v, reducing to %v'',
                         [AInt size', AInt defaultSize])]))
        else if key = ''ttl'' then index0 v (\<lambda>v0.
          case Atoi L v0 of (ttl', err) \<Rightarrow>
            if err = None then (p\<lparr>ttl := ttl'\<rparr>, lg)
            else (p\<lparr>ttl := defaultTTL\<rparr>, lg))
        else if key = ''protocol'' \<or> key = ''prot'' then index0 v (\<lambda>v0.
          if ToLower L v0 \<noteq> [] then (p\<lparr>protocol := ToLower L v0\<rparr>, lg)
          else (p\<lparr>protocol := defaultProtocol\<rparr>, lg))
        else if key = ''packet'' then index0 v (\<lambda>v0.
          if ToLower L v0 \<noteq> [] then (p\<lparr>packet := ToLower L v0\<rparr>, lg)
          else (p\<lparr>packet := defaultPacket\<rparr>, lg))
        else Inr (p, lg)))"

text \<open>The descriptor before the loop: the defaults, and \<open>params.Get("target")\<close>.\<close>

definition defaults :: "Values \<Rightarrow> pingParams" where
  "defaults q =
     \<lparr>target = Get q ''target'', timeout = defaultTimeout, interval = defaultInterval,
      count = defaultCount, psize = defaultSize, ttl = defaultTTL,
      protocol = defaultProtocol, packet = defaultPacket\<rparr>"

definition parseParams :: "stdlib \<Rightarrow> Values \<Rightarrow> panic + (pingParams \<times> entry list)" where
  "parseParams L q = range_loop (parseParams_switch L) (defaults q, []) q"

text \<open>
  \<open>parseParams\<close> of \<open>unnamed/part_000\<close>: the same loop with another \<open>switch\<close>. The
  bounds on \<open>size\<close> are strict, its maximum is 1024, a rejected \<open>size\<close> is not logged,
  and the key \<open>prot\<close> is not known.
\<close>

definition parseParams_switch_unnamed ::
  "stdlib \<Rightarrow> pingParams \<times> entry list \<Rightarrow> string \<times> string list \<Rightarrow> panic + (pingParams \<times> entry list)"
where
  "parseParams_switch_unnamed L st kv =
     (case st of (p, lg) \<Rightarrow> case kv of (k, v) \<Rightarrow>
       (let key = ToLower L k in
        if key = ''target'' then index0 v (\<lambda>v0. (p\<lparr>target := v0\<rparr>, lg))
        else if key = ''timeout'' then index0 v (\<lambda>v0.
          case ParseDuration L v0 of
            (duration, None) \<Rightarrow> (p\<lparr>timeout := duration\<rparr>, lg)
          | (duration, Some err) \<Rightarrow>
              (p, lg @ [(ErrorLevel, ''Expected duration in seconds (e.g., 5s). Got: %v'',
                         [AStr v0])]))
        else if key = ''interval'' then index0 v (\<lambda>v0.
          case ParseDuration L v0 of
            (duration, None) \<Rightarrow> (p\<lparr>interval := duration\<rparr>, lg)
          | (duration, Some err) \<Rightarrow>
              (p, lg @ [(WarnLevel,
                         ''Expected duration in seconds (e.g., 5s). Got: %v. Using default 1s.'',
                         [AStr v0])]))
        else if key = ''count'' then index0 v (\<lambda>v0.
          case Atoi L v0 of (count', err) \<Rightarrow>
            if err = None \<and> count' > 0 then (p\<lparr>count := count'\<rparr>, lg)
            else (p\<lparr>count := defaultCount\<rparr>, lg))
        else if key = ''size'' then index0 v (\<lambda>v0.
          case Atoi L v0 of (size', err) \<Rightarrow>
            if err = None \<and> size' < maxPacketSize_unnamed \<and> size' > minPacketSize
            then (p\<lparr>psize := size'\<rparr>, lg)
            else (p\<lparr>psize := defaultSize\<rparr>, lg))
        else if key = ''ttl'' then index0 v (\<lambda>v0.
          case Atoi L v0 of (ttl', err) \<Rightarrow>
            if err = None then (p\<lparr>ttl := ttl'\<rparr>, lg)
            else (p\<lparr>ttl := defaultTTL\<rparr>, lg))
        else if key = ''protocol'' then index0 v (\<lambda>v0.
          if ToLower L v0 \<noteq> [] then (p\<lparr>protocol := ToLower L v0\<rparr>, lg)
          else (p\<lparr>protocol := defaultProtocol\<rparr>, lg))
        else if key = ''packet'' then index0 v (\<lambda>v0.
          if ToLower L v0 \<noteq> [] then (p\<lparr>packet := ToLower L v0\<rparr>, lg)
          else (p\<lparr>packet := defaultPacket\<rparr>, lg))
        else Inr (p, lg)))"

definition parseParams_unnamed :: "stdlib \<Rightarrow> Values \<Rightarrow> panic + (pingParams \<times> entry list)" where
  "parseParams_unnamed L q = range_loop (parseParams_switch_unnamed L) (defaults q, []) q"

section \<open>Gauges, registries and the response\<close>

text \<open>
  A Prometheus gauge is an object with a fixed name and a mutable value. The objects live
  in a store: \<open>gauge_val\<close> maps the address of a gauge to its value, \<open>next_gauge\<close> is the
  next free address. The store is threaded through every request, so that a gauge made
  for one request and a gauge shared by all requests are told apart. A value is a
  \<open>float64\<close> in Go and a real number here: rounding is outside the model.
\<close>

record gauge =
  fqName :: string
  cell :: nat

record store =
  next_gauge :: nat
  gauge_val :: "nat \<Rightarrow> real"

definition empty_store :: store where
  "empty_store = \<lparr>next_gauge = 0, gauge_val = (\<lambda>a. 0)\<rparr>"

text \<open>\<open>prometheus.NewGauge\<close>: a new object with value 0, named \<open>namespace_name\<close>.\<close>

definition NewGauge :: "string \<Rightarrow> string \<Rightarrow> store \<Rightarrow> gauge \<times> store" where
  "NewGauge ns name h =
     (\<lparr>fqName = (if ns = [] then name else ns @ ''_'' @ name), cell = next_gauge h\<rparr>,
      h\<lparr>next_gauge := next_gauge h + 1, gauge_val := (gauge_val h)(next_gauge h := 0)\<rparr>)"

definition Gauge_Set :: "gauge \<Rightarrow> real \<Rightarrow> store \<Rightarrow> store" where
  "Gauge_Set g v h = h\<lparr>gauge_val := (gauge_val h)(cell g := v)\<rparr>"

text \<open>
  \<open>Registry.MustRegister\<close> panics when a name is registered twice. \<open>promhttp\<close> answers with
  status 200 and the current value of every registered gauge, which \<open>Gather\<close> lists
  sorted by name; \<open>name_less\<close> is Go's order of strings, byte by byte.
\<close>

type_synonym Registry = "gauge list"

fun MustRegister :: "Registry \<Rightarrow> gauge list \<Rightarrow> panic + Registry" where
  "MustRegister reg [] = Inr reg"
| "MustRegister reg (g # gs) =
     (if fqName g \<in> set (map fqName reg) then Inl AlreadyRegistered
      else MustRegister (reg @ [g]) gs)"

record response =
  status :: nat
  body :: "(string \<times> real) list"

fun name_less :: "string \<Rightarrow> string \<Rightarrow> bool" where
  "name_less [] [] = False"
| "name_less [] (y # ys) = True"
| "name_less (x # xs) [] = False"
| "name_less (x # xs) (y # ys) =
     ((of_char x :: nat) < of_char y \<or> (x = y \<and> name_less xs ys))"

fun insert_by_name :: "string \<times> real \<Rightarrow> (string \<times> real) list \<Rightarrow> (string \<times> real) list" where
  "insert_by_name x [] = [x]"
| "insert_by_name x (y # ys) =
     (if name_less (fst y) (fst x) then y # insert_by_name x ys else x # y # ys)"

definition Gather :: "store \<Rightarrow> Registry \<Rightarrow> (string \<times> real) list" where
  "Gather h registry =
     foldr insert_by_name (map (\<lambda>g. (fqName g, gauge_val h (cell g))) registry) []"

definition serveMetricsWithError :: "store \<Rightarrow> Registry \<Rightarrow> response" where
  "serveMetricsWithError h registry = \<lparr>status = 200, body = Gather h registry\<rparr>"

section \<open>The probe\<close>

text \<open>
  The pinger of \<open>pro-bing\<close>, with the fields the handlers write and read, and the
  statistics it reports. \<open>Seconds\<close> is \<open>Duration.Seconds\<close>.
\<close>

record pinger =
  addr :: string
  Count :: int
  Size :: int
  Interval :: Duration
  Timeout :: Duration
  TTL :: int
  privileged :: bool
  network :: string
  PacketsRecv :: int

record Statistics =
  PacketLoss :: real
  MinRtt :: Duration
  AvgRtt :: Duration
  MaxRtt :: Duration
  StdDevRtt :: Duration

definition Seconds :: "Duration \<Rightarrow> real" where
  "Seconds d = real_of_int d / 1000000000"

definition SetPrivileged :: "bool \<Rightarrow> pinger \<Rightarrow> pinger" where
  "SetPrivileged b pg = pg\<lparr>privileged := b\<rparr>"

definition SetNetwork :: "string \<Rightarrow> pinger \<Rightarrow> pinger" where
  "SetNetwork n pg =
     (if n = ''ip4'' then pg\<lparr>network := ''ip4''\<rparr>
      else if n = ''ip6'' then pg\<lparr>network := ''ip6''\<rparr>
      else pg\<lparr>network := ''ip''\<rparr>)"

text \<open>
  What lies outside the handler of \<open>internal/collector/icmp_collector.go\<close>, for one
  request: \<open>probing.New\<close>; \<open>pinger.Run\<close>, which may call \<open>OnFinish\<close> (then with the number
  of packets received and the statistics) and may return an error, or may panic; and
  the three readings of \<open>time.Since(start)\<close> that \<open>OnFinish\<close> takes, at the test for
  success (line 207), at the test for a timeout (line 211) and for the duration gauge
  (line 226). A panic of \<open>Run\<close> is raised in a goroutine of the pinger: it ends the
  process, and the request gets no response.
\<close>

record finish =
  recv :: int
  stats :: Statistics

record world =
  New :: "string \<Rightarrow> pinger"
  Run :: "pinger \<Rightarrow> panic + finish option \<times> error option"
  since_success_check :: Duration
  since_timeout_check :: Duration
  since_duration :: Duration

record PingMetrics =
  PingSuccessGauge :: gauge
  PingTimeoutGauge :: gauge
  ProbeDurationGauge :: gauge
  MinGauge :: gauge
  MaxGauge :: gauge
  AvgGauge :: gauge
  StddevGauge :: gauge
  LossGauge :: gauge

section \<open>The handler of \<open>internal/collector/icmp_collector.go\<close>\<close>

text \<open>Lines 120 to 172: eight new gauges.\<close>

definition namespace :: string where "namespace = ''ping''"

definition new_metrics :: "store \<Rightarrow> PingMetrics \<times> store" where
  "new_metrics h0 =
     (case NewGauge namespace ''success'' h0 of (pingSuccessGauge, h1) \<Rightarrow>
      case NewGauge namespace ''timeout'' h1 of (pingTimeoutGauge, h2) \<Rightarrow>
      case NewGauge namespace ''duration_seconds'' h2 of (probeDurationGauge, h3) \<Rightarrow>
      case NewGauge namespace ''rtt_min_seconds'' h3 of (minGauge, h4) \<Rightarrow>
      case NewGauge namespace ''rtt_max_seconds'' h4 of (maxGauge, h5) \<Rightarrow>
      case NewGauge namespace ''rtt_avg_seconds'' h5 of (avgGauge, h6) \<Rightarrow>
      case NewGauge namespace ''rtt_std_deviation'' h6 of (stddevGauge, h7) \<Rightarrow>
      case NewGauge namespace ''loss_ratio'' h7 of (lossGauge, h8) \<Rightarrow>
        (\<lparr>PingSuccessGauge = pingSuccessGauge, PingTimeoutGauge = pingTimeoutGauge,
          ProbeDurationGauge = probeDurationGauge, MinGauge = minGauge, MaxGauge = maxGauge,
          AvgGauge = avgGauge, StddevGauge = stddevGauge, LossGauge = lossGauge\<rparr>, h8))"

text \<open>Lines 183 to 201: the pinger on which \<open>Run\<close> is called.\<close>

definition configure :: "world \<Rightarrow> pingParams \<Rightarrow> pinger" where
  "configure W p =
     (let pg = New W (target p);
          pg = pg\<lparr>Count := count p, Size := psize p, Interval := interval p,
                  Timeout := timeout p, TTL := ttl p\<rparr>;
          pg = (if packet p = ''icmp'' then SetPrivileged True pg else SetPrivileged False pg)
      in if protocol p = ''v6'' \<or> protocol p = ''6'' \<or> protocol p = ''ip6''
         then SetNetwork ''ip6'' pg else SetNetwork ''ip4'' pg)"

text \<open>Lines 203 to 227: the callback \<open>OnFinish\<close>.\<close>

definition classify :: "PingMetrics \<Rightarrow> pinger \<Rightarrow> world \<Rightarrow> store \<Rightarrow> store" where
  "classify metrics pg W h =
     (if PacketsRecv pg > 0 \<and> Timeout pg > since_success_check W
      then Gauge_Set (PingTimeoutGauge metrics) 0 (Gauge_Set (PingSuccessGauge metrics) 1 h)
      else if Timeout pg < since_timeout_check W
      then Gauge_Set (PingSuccessGauge metrics) 0 (Gauge_Set (PingTimeoutGauge metrics) 1 h)
      else if PacketsRecv pg = 0
      then Gauge_Set (PingTimeoutGauge metrics) 0 (Gauge_Set (PingSuccessGauge metrics) 0 h)
      else h)"

definition OnFinish :: "PingMetrics \<Rightarrow> pinger \<Rightarrow> world \<Rightarrow> Statistics \<Rightarrow> store \<Rightarrow> store" where
  "OnFinish metrics pg W st h =
     (let h = classify metrics pg W h;
          h = Gauge_Set (MinGauge metrics) (Seconds (MinRtt st)) h;
          h = Gauge_Set (AvgGauge metrics) (Seconds (AvgRtt st)) h;
          h = Gauge_Set (MaxGauge metrics) (Seconds (MaxRtt st)) h;
          h = Gauge_Set (StddevGauge metrics) (real_of_int (StdDevRtt st)) h;
          h = Gauge_Set (LossGauge metrics) (PacketLoss st) h
      in Gauge_Set (ProbeDurationGauge metrics) (Seconds (since_duration W)) h)"

text \<open>
  The result of a request: the store it leaves, the pinger on which \<open>Run\<close> was called (if
  the handler came that far), and the response. The handler's own log lines are not part
  of the model.
\<close>

record outcome =
  store_after :: store
  probe :: "pinger option"
  resp :: response

definition PingHandler :: "stdlib \<Rightarrow> world \<Rightarrow> Values \<Rightarrow> store \<Rightarrow> panic + outcome" where
  "PingHandler L W q h0 =
     (case new_metrics h0 of (metrics, h) \<Rightarrow>
      case MustRegister []
             [PingSuccessGauge metrics, PingTimeoutGauge metrics, ProbeDurationGauge metrics,
              MinGauge metrics, MaxGauge metrics, AvgGauge metrics, StddevGauge metrics,
              LossGauge metrics] of
        Inl e \<Rightarrow> Inl e
      | Inr registry \<Rightarrow>
         (case parseParams L q of
            Inl e \<Rightarrow> Inl e
          | Inr (p, lg) \<Rightarrow>
             (let pg = configure W p
              in case Run W pg of
                   Inl e \<Rightarrow> Inl e
                 | Inr (finished, err) \<Rightarrow>
                    (let h = (case finished of
                                Some fin \<Rightarrow>
                                  OnFinish metrics (pg\<lparr>PacketsRecv := recv fin\<rparr>) W
                                    (stats fin) h
                              | None \<Rightarrow> h)
                     in Inr \<lparr>store_after = h, probe = Some pg,
                             resp = serveMetricsWithError h registry\<rparr>))))"

section \<open>The handler of \<open>unnamed/part_000\<close>\<close>

text \<open>
  Lines 29 to 54: six gauges, made once when the package is loaded and used by every
  request.
\<close>

definition namespace_unnamed :: string where "namespace_unnamed = ''ping_''"

record globals =
  probeDurationGauge :: gauge
  minGauge :: gauge
  maxGauge :: gauge
  avgGauge :: gauge
  stddevGauge :: gauge
  lossGauge :: gauge

definition package_vars :: "store \<Rightarrow> globals \<times> store" where
  "package_vars h0 =
     (case NewGauge [] (namespace_unnamed @ ''duration_seconds'') h0 of (g1, h1) \<Rightarrow>
      case NewGauge [] (namespace_unnamed @ ''rtt_min_seconds'') h1 of (g2, h2) \<Rightarrow>
      case NewGauge [] (namespace_unnamed @ ''rtt_max_seconds'') h2 of (g3, h3) \<Rightarrow>
      case NewGauge [] (namespace_unnamed @ ''rtt_avg_seconds'') h3 of (g4, h4) \<Rightarrow>
      case NewGauge [] (namespace_unnamed @ ''rtt_std_deviation'') h4 of (g5, h5) \<Rightarrow>
      case NewGauge [] (namespace_unnamed @ ''loss_ratio'') h5 of (g6, h6) \<Rightarrow>
        (\<lparr>probeDurationGauge = g1, minGauge = g2, maxGauge = g3, avgGauge = g4,
          stddevGauge = g5, lossGauge = g6\<rparr>, h6))"

text \<open>
  What lies outside this handler: \<open>net.ResolveIPAddr\<close>, \<open>probing.NewPinger\<close>,
  \<open>pinger.Run\<close>, which may panic, followed (when it returns no error) by
  \<open>pinger.Statistics\<close>, and the reading of \<open>time.Since(start)\<close> at line 189.
\<close>

record world_unnamed =
  ResolveIPAddr :: "string \<Rightarrow> string \<Rightarrow> error + string"
  NewPinger :: "string \<Rightarrow> error + pinger"
  Run_Statistics :: "pinger \<Rightarrow> panic + (error + Statistics)"
  since :: Duration

definition PingHandler_unnamed ::
  "stdlib \<Rightarrow> world_unnamed \<Rightarrow> globals \<Rightarrow> Values \<Rightarrow> store \<Rightarrow> panic + outcome"
where
  "PingHandler_unnamed L W G q h =
     (case parseParams_unnamed L q of
        Inl e \<Rightarrow> Inl e
      | Inr (p, lg) \<Rightarrow>
         (case MustRegister []
                 [probeDurationGauge G, minGauge G, maxGauge G, avgGauge G, stddevGauge G,
                  lossGauge G] of
            Inl e \<Rightarrow> Inl e
          | Inr registry \<Rightarrow>
             (case ResolveIPAddr W (protocol p) (target p) of
                Inl err \<Rightarrow>
                  Inr \<lparr>store_after = h, probe = None, resp = serveMetricsWithError h registry\<rparr>
              | Inr ra \<Rightarrow>
                 (case NewPinger W ra of
                    Inl err \<Rightarrow>
                      Inr \<lparr>store_after = h, probe = None,
                           resp = serveMetricsWithError h registry\<rparr>
                  | Inr pg0 \<Rightarrow>
                     (let pg = pg0\<lparr>Count := count p, Size := psize p, Interval := interval p,
                                    Timeout := timeout p, TTL := ttl p\<rparr>;
                          pg = (if protocol p = ''icmp'' then SetPrivileged True pg
                                else SetPrivileged False pg)
                      in case Run_Statistics W pg of
                           Inl e \<Rightarrow> Inl e
                         | Inr (Inl err) \<Rightarrow>
                             Inr \<lparr>store_after = h, probe = Some pg,
                                  resp = serveMetricsWithError h registry\<rparr>
                         | Inr (Inr st) \<Rightarrow>
                            (let h = Gauge_Set (minGauge G) (Seconds (MinRtt st)) h;
                                 h = Gauge_Set (avgGauge G) (Seconds (AvgRtt st)) h;
                                 h = Gauge_Set (maxGauge G) (Seconds (MaxRtt st)) h;
                                 h = Gauge_Set (stddevGauge G) (real_of_int (StdDevRtt st)) h;
                                 h = Gauge_Set (lossGauge G) (PacketLoss st) h;
                                 h = Gauge_Set (probeDurationGauge G) (Seconds (since W)) h
                             in Inr \<lparr>store_after = h, probe = Some pg,
                                     resp = serveMetricsWithError h registry\<rparr>))))))"

section \<open>Observations and concrete requests\<close>

text \<open>What a caller sees of a result: the descriptor, the log, a metric of the response.\<close>

definition descriptor :: "panic + (pingParams \<times> entry list) \<Rightarrow> pingParams option" where
  "descriptor r = (case r of Inr (p, lg) \<Rightarrow> Some p | Inl e \<Rightarrow> None)"

definition logged :: "panic + (pingParams \<times> entry list) \<Rightarrow> entry list option" where
  "logged r = (case r of Inr (p, lg) \<Rightarrow> Some lg | Inl e \<Rightarrow> None)"

definition metric :: "outcome \<Rightarrow> string \<Rightarrow> real option" where
  "metric out name = map_of (body (resp out)) name"

definition metric_of :: "panic + outcome \<Rightarrow> string \<Rightarrow> real option" where
  "metric_of r name = (case r of Inr out \<Rightarrow> metric out name | Inl e \<Rightarrow> None)"

definition probe_of :: "panic + outcome \<Rightarrow> pinger option" where
  "probe_of r = (case r of Inr out \<Rightarrow> probe out | Inl e \<Rightarrow> None)"

definition response_of :: "panic + outcome \<Rightarrow> response option" where
  "response_of r = (case r of Inr out \<Rightarrow> Some (resp out) | Inl e \<Rightarrow> None)"

text \<open>The query with only the first value of every key.\<close>

definition firsts :: "Values \<Rightarrow> Values" where
  "firsts q = map (\<lambda>(k, v). (k, take 1 v)) q"

text \<open>The warning of the \<open>size\<close> case, with its first argument \<open>a\<close>.\<close>

definition size_warning :: "arg \<Rightarrow> entry" where
  "size_warning a =
     (WarnLevel, ''Received request for illegal packet size %v, reducing to %v'',
      [a, AInt defaultSize])"

text \<open>
  Two folded keys that the switch of \<open>internal/collector/icmp_collector.go\<close> takes to
  the same field of the descriptor: the same key, or \<open>protocol\<close> and its alias \<open>prot\<close>.
\<close>

definition same_field :: "string \<Rightarrow> string \<Rightarrow> bool" where
  "same_field a b =
     (a = b \<or> (a = ''protocol'' \<or> a = ''prot'') \<and> (b = ''protocol'' \<or> b = ''prot''))"

text \<open>\<open>field_kept key p p'\<close>: the field that \<open>key\<close> is for has the same value in \<open>p\<close> and \<open>p'\<close>.\<close>

definition field_kept :: "string \<Rightarrow> pingParams \<Rightarrow> pingParams \<Rightarrow> bool" where
  "field_kept key p p' =
     (if key = ''target'' then target p' = target p
      else if key = ''timeout'' then timeout p' = timeout p
      else if key = ''interval'' then interval p' = interval p
      else if key = ''count'' then count p' = count p
      else if key = ''size'' then psize p' = psize p
      else if key = ''ttl'' then ttl p' = ttl p
      else if key = ''protocol'' \<or> key = ''prot'' then protocol p' = protocol p
      else if key = ''packet'' then packet p' = packet p
      else True)"

text \<open>
  A server that answers two requests one after the other: the second handler runs on the
  store the first has left.
\<close>

definition two_requests ::
  "stdlib \<Rightarrow> world \<Rightarrow> Values \<Rightarrow> world \<Rightarrow> Values \<Rightarrow> store \<Rightarrow> panic + outcome" where
  "two_requests L W1 q1 W2 q2 h =
     (case PingHandler L W1 q1 h of
        Inl e \<Rightarrow> Inl e
      | Inr out \<Rightarrow> PingHandler L W2 q2 (store_after out))"

definition two_requests_unnamed ::
  "stdlib \<Rightarrow> globals \<Rightarrow> world_unnamed \<Rightarrow> Values \<Rightarrow> world_unnamed \<Rightarrow> Values \<Rightarrow> store
     \<Rightarrow> panic + outcome" where
  "two_requests_unnamed L G W1 q1 W2 q2 h =
     (case PingHandler_unnamed L W1 G q1 h of
        Inl e \<Rightarrow> Inl e
      | Inr out \<Rightarrow> PingHandler_unnamed L W2 G q2 (store_after out))"

text \<open>
  Concrete surroundings for the evaluations below. \<open>probing_New\<close> has the defaults of
  \<open>pro-bing\<close>; \<open>some_stats\<close> are the statistics of a probe that lost one packet in four.
\<close>

definition probing_New :: "string \<Rightarrow> pinger" where
  "probing_New a =
     \<lparr>addr = a, Count = - 1, Size = 24, Interval = Second, Timeout = 9223372036854775807,
      TTL = 64, privileged = False, network = ''ip'', PacketsRecv = 0\<rparr>"

definition some_stats :: Statistics where
  "some_stats =
     \<lparr>PacketLoss = 25, MinRtt = Millisecond, AvgRtt = 2 * Millisecond,
      MaxRtt = 3 * Millisecond, StdDevRtt = Millisecond\<rparr>"

text \<open>
  \<open>Run\<close> of \<open>pro-bing\<close> starts its loop with \<open>time.NewTicker(p.Timeout)\<close> and
  \<open>time.NewTicker(p.Interval)\<close>, and \<open>NewTicker\<close> panics on a duration that is not
  positive.
\<close>

definition tickers_panic :: "pinger \<Rightarrow> bool" where
  "tickers_panic pg = (Timeout pg \<le> 0 \<or> Interval pg \<le> 0)"

text \<open>A probe that receives \<open>n\<close> packets and finishes; every reading of the clock is \<open>t\<close>.\<close>

definition world_finished :: "int \<Rightarrow> Duration \<Rightarrow> world" where
  "world_finished n t =
     \<lparr>New = probing_New,
      Run = (\<lambda>pg. if tickers_panic pg then Inl NonPositiveTicker
                  else Inr (Some \<lparr>recv = n, stats = some_stats\<rparr>, None)),
      since_success_check = t, since_timeout_check = t, since_duration = t\<rparr>"

text \<open>
  A probe whose \<open>Run\<close> fails when it opens its socket, before the loop; the clock reads
  \<open>t\<close>.
\<close>

definition world_failed :: "Duration \<Rightarrow> world" where
  "world_failed t =
     \<lparr>New = probing_New,
      Run = (\<lambda>pg. Inr (None, Some (ErrOther ''socket: permission denied''))),
      since_success_check = t, since_timeout_check = t, since_duration = t\<rparr>"

text \<open>
  For \<open>unnamed/part_000\<close>: a resolver that knows one host, with an address in each
  family, and rejects every network name but \<open>ip\<close>, \<open>ip4\<close> and \<open>ip6\<close>, as Go's does; and
  a resolver that fails.
\<close>

definition resolve_example :: "string \<Rightarrow> string \<Rightarrow> error + string" where
  "resolve_example net host =
     (if net \<noteq> ''ip'' \<and> net \<noteq> ''ip4'' \<and> net \<noteq> ''ip6'' then Inl (ErrOther ''unknown network'')
      else if host \<noteq> ''example.com'' then Inl (ErrOther ''no such host'')
      else if net = ''ip6'' then Inr ''2001:db8::1'' else Inr ''192.0.2.1'')"

definition world_unnamed_up :: world_unnamed where
  "world_unnamed_up =
     \<lparr>ResolveIPAddr = resolve_example, NewPinger = (\<lambda>a. Inr (probing_New a)),
      Run_Statistics = (\<lambda>pg. if tickers_panic pg then Inl NonPositiveTicker
                             else Inr (Inr some_stats)),
      since = 3 * Second\<rparr>"

definition world_unnamed_down :: world_unnamed where
  "world_unnamed_down =
     \<lparr>ResolveIPAddr = (\<lambda>net host. Inl (ErrOther ''no such host'')),
      NewPinger = (\<lambda>a. Inr (probing_New a)),
      Run_Statistics = (\<lambda>pg. if tickers_panic pg then Inl NonPositiveTicker
                             else Inr (Inr some_stats)),
      since = 3 * Second\<rparr>"

text \<open>The package variables of \<open>unnamed/part_000\<close> in a new process, and the store then.\<close>

definition G0 :: globals where "G0 = fst (package_vars empty_store)"
definition h0 :: store where "h0 = snd (package_vars empty_store)"

section \<open>Loops and the cases of the switch\<close>

lemma range_loop_append:
  "range_loop f s (xs @ ys) =
     (case range_loop f s xs of Inl e \<Rightarrow> Inl e | Inr s' \<Rightarrow> range_loop f s' ys)"
  by (induction xs arbitrary: s) (auto split: sum.splits)

lemma range_loop_map:
  assumes "\<And>a x. f a (g x) = f a x"
  shows "range_loop f s (map g xs) = range_loop f s xs"
  by (induction xs arbitrary: s) (auto simp: assms split: sum.splits)

lemma range_loop_invariant:
  assumes "range_loop f s xs = Inr s'" and "I s"
    and "\<And>a x b. x \<in> set xs \<Longrightarrow> I a \<Longrightarrow> f a x = Inr b \<Longrightarrow> I b"
  shows "I s'"
  using assms
proof (induction xs arbitrary: s)
  case Nil
  then show ?case by simp
next
  case (Cons x xs)
  from Cons.prems(1) obtain s1 where s1: "f s x = Inr s1" and rest: "range_loop f s1 xs = Inr s'"
    by (auto split: sum.splits)
  have "I s1" using Cons.prems(2,3) s1 by auto
  then show ?case using Cons.IH [OF rest] Cons.prems(3) by auto
qed

lemma range_loop_total:
  assumes "\<And>a x. x \<in> set xs \<Longrightarrow> \<exists>b. f a x = Inr b"
  shows "\<exists>s'. range_loop f s xs = Inr s'"
  using assms
proof (induction xs arbitrary: s)
  case Nil
  then show ?case by simp
next
  case (Cons x xs)
  then obtain s1 where "f s x = Inr s1" by (meson list.set_intros(1))
  then show ?case using Cons by (auto split: sum.splits)
qed

lemma range_loop_split:
  assumes "range_loop f s (q1 @ x # q2) = Inr s3"
  shows "\<exists>s1 s2. range_loop f s q1 = Inr s1 \<and> f s1 x = Inr s2 \<and> range_loop f s2 q2 = Inr s3"
  using assms by (auto simp: range_loop_append split: sum.splits)

lemma key_cases:
  obtains "key = ''target''" | "key = ''timeout''" | "key = ''interval''"
  | "key = ''count''" | "key = ''size''" | "key = ''ttl''"
  | "key = ''protocol''" | "key = ''prot''" | "key = ''packet''"
  | "key \<notin> {''target'', ''timeout'', ''interval'', ''count'', ''size'', ''ttl'',
       ''protocol'', ''prot'', ''packet''}"
  by atomize_elim auto

text \<open>The switch of \<open>internal/collector/icmp_collector.go\<close>, one case at a time.\<close>

lemma switch_empty:
  "parseParams_switch L (p, lg) (k, []) = Inr b \<Longrightarrow> b = (p, lg)"
  by (auto simp: parseParams_switch_def index0_def Let_def split: if_splits)

lemma switch_target:
  "ToLower L k = ''target'' \<Longrightarrow>
     parseParams_switch L (p, lg) (k, v # vs) = Inr (p\<lparr>target := v\<rparr>, lg)"
  by (simp add: parseParams_switch_def index0_def)

lemma switch_timeout:
  "ToLower L k = ''timeout'' \<Longrightarrow>
     parseParams_switch L (p, lg) (k, v # vs) =
       Inr (if snd (ParseDuration L v) = None then (p\<lparr>timeout := fst (ParseDuration L v)\<rparr>, lg)
            else (p, lg @ [(ErrorLevel, ''Expected duration in seconds (e.g., 5s). Got: %v'',
                            [AStr v])]))"
  by (simp add: parseParams_switch_def index0_def split: prod.splits option.splits)

lemma switch_interval:
  "ToLower L k = ''interval'' \<Longrightarrow>
     parseParams_switch L (p, lg) (k, v # vs) =
       Inr (if snd (ParseDuration L v) = None then (p\<lparr>interval := fst (ParseDuration L v)\<rparr>, lg)
            else (p, lg @ [(WarnLevel,
                            ''Expected duration in seconds (e.g., 5s). Got: %v. Using default 1s.'',
                            [AStr v])]))"
  by (simp add: parseParams_switch_def index0_def split: prod.splits option.splits)

lemma switch_count:
  "ToLower L k = ''count'' \<Longrightarrow>
     parseParams_switch L (p, lg) (k, v # vs) =
       Inr (if snd (Atoi L v) = None \<and> fst (Atoi L v) > 0 then (p\<lparr>count := fst (Atoi L v)\<rparr>, lg)
            else (p\<lparr>count := defaultCount\<rparr>, lg))"
  by (simp add: parseParams_switch_def index0_def split: prod.splits)

lemma switch_size:
  "ToLower L k = ''size'' \<Longrightarrow>
     parseParams_switch L (p, lg) (k, v # vs) =
       Inr (if snd (Atoi L v) = None \<and> fst (Atoi L v) \<le> maxPacketSize \<and>
               fst (Atoi L v) \<ge> minPacketSize
            then (p\<lparr>psize := fst (Atoi L v)\<rparr>, lg)
            else (p\<lparr>psize := defaultSize\<rparr>, lg @ [size_warning (AInt (fst (Atoi L v)))]))"
  by (simp add: parseParams_switch_def index0_def size_warning_def split: prod.splits)

lemma switch_ttl:
  "ToLower L k = ''ttl'' \<Longrightarrow>
     parseParams_switch L (p, lg) (k, v # vs) =
       Inr (if snd (Atoi L v) = None then (p\<lparr>ttl := fst (Atoi L v)\<rparr>, lg)
            else (p\<lparr>ttl := defaultTTL\<rparr>, lg))"
  by (simp add: parseParams_switch_def index0_def split: prod.splits)

lemma switch_protocol:
  "ToLower L k = ''protocol'' \<or> ToLower L k = ''prot'' \<Longrightarrow>
     parseParams_switch L (p, lg) (k, v # vs) =
       Inr (if ToLower L v \<noteq> [] then (p\<lparr>protocol := ToLower L v\<rparr>, lg)
            else (p\<lparr>protocol := defaultProtocol\<rparr>, lg))"
  by (auto simp: parseParams_switch_def index0_def)

lemma switch_packet:
  "ToLower L k = ''packet'' \<Longrightarrow>
     parseParams_switch L (p, lg) (k, v # vs) =
       Inr (if ToLower L v \<noteq> [] then (p\<lparr>packet := ToLower L v\<rparr>, lg)
            else (p\<lparr>packet := defaultPacket\<rparr>, lg))"
  by (simp add: parseParams_switch_def index0_def)

lemma switch_unknown:
  "ToLower L k \<notin> {''target'', ''timeout'', ''interval'', ''count'', ''size'', ''ttl'',
       ''protocol'', ''prot'', ''packet''} \<Longrightarrow>
     parseParams_switch L (p, lg) (k, v) = Inr (p, lg)"
  by (simp add: parseParams_switch_def)

lemmas switch_eqs =
  switch_target switch_timeout switch_interval switch_count switch_size switch_ttl
  switch_protocol switch_packet switch_unknown

lemma switch_total: "v \<noteq> [] \<Longrightarrow> \<exists>b. parseParams_switch L a (k, v) = Inr b"
  by (cases a; cases v) (simp_all add: parseParams_switch_def index0_def Let_def)

text \<open>
  A key leaves alone every field but its own, and the log only grows.
\<close>

lemma switch_keeps:
  assumes "parseParams_switch L (p, lg) (k, v) = Inr (p', lg')"
  shows "(ToLower L k \<noteq> ''target'' \<longrightarrow> target p' = target p) \<and>
         (ToLower L k \<noteq> ''timeout'' \<longrightarrow> timeout p' = timeout p) \<and>
         (ToLower L k \<noteq> ''interval'' \<longrightarrow> interval p' = interval p) \<and>
         (ToLower L k \<noteq> ''count'' \<longrightarrow> count p' = count p) \<and>
         (ToLower L k \<noteq> ''size'' \<longrightarrow> psize p' = psize p) \<and>
         (ToLower L k \<noteq> ''ttl'' \<longrightarrow> ttl p' = ttl p) \<and>
         (ToLower L k \<noteq> ''protocol'' \<and> ToLower L k \<noteq> ''prot'' \<longrightarrow> protocol p' = protocol p) \<and>
         (ToLower L k \<noteq> ''packet'' \<longrightarrow> packet p' = packet p) \<and>
         set lg \<subseteq> set lg'"
proof (cases v)
  case Nil
  then show ?thesis using assms switch_empty by blast
next
  case (Cons v0 vs)
  show ?thesis
    using assms
    by (cases "ToLower L k" rule: key_cases)
       (auto simp: Cons switch_eqs split: if_splits)
qed

text \<open>The switch of \<open>unnamed/part_000\<close>.\<close>

lemma switch_unnamed_empty:
  "parseParams_switch_unnamed L (p, lg) (k, []) = Inr b \<Longrightarrow> b = (p, lg)"
  by (auto simp: parseParams_switch_unnamed_def index0_def Let_def split: if_splits)

lemma switch_unnamed_target:
  "ToLower L k = ''target'' \<Longrightarrow>
     parseParams_switch_unnamed L (p, lg) (k, v # vs) = Inr (p\<lparr>target := v\<rparr>, lg)"
  by (simp add: parseParams_switch_unnamed_def index0_def)

lemma switch_unnamed_timeout:
  "ToLower L k = ''timeout'' \<Longrightarrow>
     parseParams_switch_unnamed L (p, lg) (k, v # vs) =
       Inr (if snd (ParseDuration L v) = None then (p\<lparr>timeout := fst (ParseDuration L v)\<rparr>, lg)
            else (p, lg @ [(ErrorLevel, ''Expected duration in seconds (e.g., 5s). Got: %v'',
                            [AStr v])]))"
  by (simp add: parseParams_switch_unnamed_def index0_def split: prod.splits option.splits)

lemma switch_unnamed_interval:
  "ToLower L k = ''interval'' \<Longrightarrow>
     parseParams_switch_unnamed L (p, lg) (k, v # vs) =
       Inr (if snd (ParseDuration L v) = None then (p\<lparr>interval := fst (ParseDuration L v)\<rparr>, lg)
            else (p, lg @ [(WarnLevel,
                            ''Expected duration in seconds (e.g., 5s). Got: %v. Using default 1s.'',
                            [AStr v])]))"
  by (simp add: parseParams_switch_unnamed_def index0_def split: prod.splits option.splits)

lemma switch_unnamed_count:
  "ToLower L k = ''count'' \<Longrightarrow>
     parseParams_switch_unnamed L (p, lg) (k, v # vs) =
       Inr (if snd (Atoi L v) = None \<and> fst (Atoi L v) > 0 then (p\<lparr>count := fst (Atoi L v)\<rparr>, lg)
            else (p\<lparr>count := defaultCount\<rparr>, lg))"
  by (simp add: parseParams_switch_unnamed_def index0_def split: prod.splits)

lemma switch_unnamed_size:
  "ToLower L k = ''size'' \<Longrightarrow>
     parseParams_switch_unnamed L (p, lg) (k, v # vs) =
       Inr (if snd (Atoi L v) = None \<and> fst (Atoi L v) < maxPacketSize_unnamed \<and>
               fst (Atoi L v) > minPacketSize
            then (p\<lparr>psize := fst (Atoi L v)\<rparr>, lg)
            else (p\<lparr>psize := defaultSize\<rparr>, lg))"
  by (simp add: parseParams_switch_unnamed_def index0_def split: prod.splits)

lemma switch_unnamed_ttl:
  "ToLower L k = ''ttl'' \<Longrightarrow>
     parseParams_switch_unnamed L (p, lg) (k, v # vs) =
       Inr (if snd (Atoi L v) = None then (p\<lparr>ttl := fst (Atoi L v)\<rparr>, lg)
            else (p\<lparr>ttl := defaultTTL\<rparr>, lg))"
  by (simp add: parseParams_switch_unnamed_def index0_def split: prod.splits)

lemma switch_unnamed_protocol:
  "ToLower L k = ''protocol'' \<Longrightarrow>
     parseParams_switch_unnamed L (p, lg) (k, v # vs) =
       Inr (if ToLower L v \<noteq> [] then (p\<lparr>protocol := ToLower L v\<rparr>, lg)
            else (p\<lparr>protocol := defaultProtocol\<rparr>, lg))"
  by (simp add: parseParams_switch_unnamed_def index0_def)

lemma switch_unnamed_packet:
  "ToLower L k = ''packet'' \<Longrightarrow>
     parseParams_switch_unnamed L (p, lg) (k, v # vs) =
       Inr (if ToLower L v \<noteq> [] then (p\<lparr>packet := ToLower L v\<rparr>, lg)
            else (p\<lparr>packet := defaultPacket\<rparr>, lg))"
  by (simp add: parseParams_switch_unnamed_def index0_def)

lemma switch_unnamed_unknown:
  "ToLower L k \<notin> {''target'', ''timeout'', ''interval'', ''count'', ''size'', ''ttl'',
       ''protocol'', ''packet''} \<Longrightarrow>
     parseParams_switch_unnamed L (p, lg) (k, v) = Inr (p, lg)"
  by (simp add: parseParams_switch_unnamed_def)

lemmas switch_unnamed_eqs =
  switch_unnamed_target switch_unnamed_timeout switch_unnamed_interval switch_unnamed_count
  switch_unnamed_size switch_unnamed_ttl switch_unnamed_protocol switch_unnamed_packet
  switch_unnamed_unknown

lemma switch_unnamed_total: "v \<noteq> [] \<Longrightarrow> \<exists>b. parseParams_switch_unnamed L a (k, v) = Inr b"
  by (cases a; cases v) (simp_all add: parseParams_switch_unnamed_def index0_def Let_def)

lemma switch_unnamed_keeps:
  assumes "parseParams_switch_unnamed L (p, lg) (k, v) = Inr (p', lg')"
  shows "(ToLower L k \<noteq> ''target'' \<longrightarrow> target p' = target p) \<and>
         (ToLower L k \<noteq> ''timeout'' \<longrightarrow> timeout p' = timeout p) \<and>
         (ToLower L k \<noteq> ''interval'' \<longrightarrow> interval p' = interval p) \<and>
         (ToLower L k \<noteq> ''count'' \<longrightarrow> count p' = count p) \<and>
         (ToLower L k \<noteq> ''size'' \<longrightarrow> psize p' = psize p) \<and>
         (ToLower L k \<noteq> ''ttl'' \<longrightarrow> ttl p' = ttl p) \<and>
         (ToLower L k \<noteq> ''protocol'' \<longrightarrow> protocol p' = protocol p) \<and>
         (ToLower L k \<noteq> ''packet'' \<longrightarrow> packet p' = packet p)"
proof (cases v)
  case Nil
  then show ?thesis using assms switch_unnamed_empty by blast
next
  case (Cons v0 vs)
  show ?thesis
    using assms
    by (cases "ToLower L k" rule: key_cases)
       (auto simp: Cons switch_unnamed_eqs split: if_splits)
qed

text \<open>
  After the entry of a key, the entries of keys for other fields do not change what that
  entry wrote.
\<close>

lemma field_kept_refl: "field_kept key p p"
  by (simp add: field_kept_def)

lemma field_kept_trans:
  "field_kept key p p' \<Longrightarrow> field_kept key p' p'' \<Longrightarrow> field_kept key p p''"
  by (simp add: field_kept_def split: if_splits)

lemma switch_field_kept:
  assumes "parseParams_switch L (p, lg) (k, v) = Inr (p', lg')"
    and "\<not> same_field (ToLower L k) key"
  shows "field_kept key p p'"
proof -
  note K = switch_keeps [OF assms(1)]
  have d: "ToLower L k \<noteq> key"
    using assms(2) by (simp add: same_field_def)
  show ?thesis
  proof (cases key rule: key_cases)
    case 1
    then show ?thesis using K d by (simp add: field_kept_def)
  next
    case 2
    then show ?thesis using K d by (simp add: field_kept_def)
  next
    case 3
    then show ?thesis using K d by (simp add: field_kept_def)
  next
    case 4
    then show ?thesis using K d by (simp add: field_kept_def)
  next
    case 5
    then show ?thesis using K d by (simp add: field_kept_def)
  next
    case 6
    then show ?thesis using K d by (simp add: field_kept_def)
  next
    case 7
    then have "ToLower L k \<noteq> ''protocol'' \<and> ToLower L k \<noteq> ''prot''"
      using assms(2) by (simp add: same_field_def)
    then show ?thesis using K 7 by (simp add: field_kept_def)
  next
    case 8
    then have "ToLower L k \<noteq> ''protocol'' \<and> ToLower L k \<noteq> ''prot''"
      using assms(2) by (simp add: same_field_def)
    then show ?thesis using K 8 by (simp add: field_kept_def)
  next
    case 9
    then show ?thesis using K d by (simp add: field_kept_def)
  next
    case 10
    then show ?thesis by (simp add: field_kept_def)
  qed
qed

lemma switch_unnamed_field_kept:
  assumes "parseParams_switch_unnamed L (p, lg) (k, v) = Inr (p', lg')"
    and "\<not> same_field (ToLower L k) key"
  shows "field_kept key p p'"
proof -
  note K = switch_unnamed_keeps [OF assms(1)]
  have d: "ToLower L k \<noteq> key"
    using assms(2) by (simp add: same_field_def)
  show ?thesis
  proof (cases key rule: key_cases)
    case 1
    then show ?thesis using K d by (simp add: field_kept_def)
  next
    case 2
    then show ?thesis using K d by (simp add: field_kept_def)
  next
    case 3
    then show ?thesis using K d by (simp add: field_kept_def)
  next
    case 4
    then show ?thesis using K d by (simp add: field_kept_def)
  next
    case 5
    then show ?thesis using K d by (simp add: field_kept_def)
  next
    case 6
    then show ?thesis using K d by (simp add: field_kept_def)
  next
    case 7
    then show ?thesis using K d by (simp add: field_kept_def)
  next
    case 8
    then have "ToLower L k \<noteq> ''protocol''"
      using assms(2) by (simp add: same_field_def)
    then show ?thesis using K 8 by (simp add: field_kept_def)
  next
    case 9
    then show ?thesis using K d by (simp add: field_kept_def)
  next
    case 10
    then show ?thesis by (simp add: field_kept_def)
  qed
qed

lemma loop_keeps:
  assumes "range_loop (parseParams_switch L) s2 q2 = Inr s3"
    and "\<forall>(k', v') \<in> set q2. \<not> same_field (ToLower L k') key"
  shows "field_kept key (fst s2) (fst s3) \<and> set (snd s2) \<subseteq> set (snd s3)"
proof (rule range_loop_invariant [OF assms(1),
      where I = "\<lambda>s. field_kept key (fst s2) (fst s) \<and> set (snd s2) \<subseteq> set (snd s)"])
  show "field_kept key (fst s2) (fst s2) \<and> set (snd s2) \<subseteq> set (snd s2)"
    by (simp add: field_kept_refl)
next
  fix a x b
  assume x: "x \<in> set q2"
    and a: "field_kept key (fst s2) (fst a) \<and> set (snd s2) \<subseteq> set (snd a)"
    and b: "parseParams_switch L a x = Inr b"
  have k: "\<not> same_field (ToLower L (fst x)) key"
    using assms(2) x by (cases x) auto
  have b': "parseParams_switch L (fst a, snd a) (fst x, snd x) = Inr (fst b, snd b)"
    using b by simp
  have "field_kept key (fst a) (fst b)"
    by (rule switch_field_kept [OF b' k])
  moreover have "set (snd a) \<subseteq> set (snd b)"
    using switch_keeps [OF b'] by blast
  ultimately show "field_kept key (fst s2) (fst b) \<and> set (snd s2) \<subseteq> set (snd b)"
    using a field_kept_trans by blast
qed

lemma loop_unnamed_keeps:
  assumes "range_loop (parseParams_switch_unnamed L) s2 q2 = Inr s3"
    and "\<forall>(k', v') \<in> set q2. \<not> same_field (ToLower L k') key"
  shows "field_kept key (fst s2) (fst s3)"
proof (rule range_loop_invariant [OF assms(1), where I = "\<lambda>s. field_kept key (fst s2) (fst s)"])
  show "field_kept key (fst s2) (fst s2)"
    by (rule field_kept_refl)
next
  fix a x b
  assume x: "x \<in> set q2" and a: "field_kept key (fst s2) (fst a)"
    and b: "parseParams_switch_unnamed L a x = Inr b"
  have k: "\<not> same_field (ToLower L (fst x)) key"
    using assms(2) x by (cases x) auto
  have b': "parseParams_switch_unnamed L (fst a, snd a) (fst x, snd x) = Inr (fst b, snd b)"
    using b by simp
  have "field_kept key (fst a) (fst b)"
    by (rule switch_unnamed_field_kept [OF b' k])
  then show "field_kept key (fst s2) (fst b)"
    using a field_kept_trans by blast
qed

text \<open>
  The entry \<open>(k, v # vs)\<close> of a query and what the loop does around it: it runs the
  switch on the entry, and the entries after it keep the field of \<open>k\<close> when none of
  their keys is for the same field.
\<close>

lemma last_entry:
  assumes "parseParams L (q1 @ (k, v # vs) # q2) = Inr (p, lg)"
    and "\<forall>(k', v') \<in> set q2. \<not> same_field (ToLower L k') (ToLower L k)"
  shows "\<exists>p1 lg1 p2 lg2. parseParams_switch L (p1, lg1) (k, v # vs) = Inr (p2, lg2) \<and>
           field_kept (ToLower L k) p2 p \<and> set lg2 \<subseteq> set lg"
proof -
  from assms(1) obtain s1 s2 where
    step: "parseParams_switch L s1 (k, v # vs) = Inr s2"
    and rest: "range_loop (parseParams_switch L) s2 q2 = Inr (p, lg)"
    unfolding parseParams_def
    using range_loop_split [of "parseParams_switch L" _ q1 "(k, v # vs)" q2] by blast
  from loop_keeps [OF rest assms(2)]
  have "field_kept (ToLower L k) (fst s2) p \<and> set (snd s2) \<subseteq> set lg"
    by simp
  moreover have "parseParams_switch L (fst s1, snd s1) (k, v # vs) = Inr (fst s2, snd s2)"
    using step by simp
  ultimately show ?thesis by blast
qed

lemma last_entry_unnamed:
  assumes "parseParams_unnamed L (q1 @ (k, v # vs) # q2) = Inr (p, lg)"
    and "\<forall>(k', v') \<in> set q2. \<not> same_field (ToLower L k') (ToLower L k)"
  shows "\<exists>p1 lg1 p2 lg2. parseParams_switch_unnamed L (p1, lg1) (k, v # vs) = Inr (p2, lg2) \<and>
           field_kept (ToLower L k) p2 p"
proof -
  from assms(1) obtain s1 s2 where
    step: "parseParams_switch_unnamed L s1 (k, v # vs) = Inr s2"
    and rest: "range_loop (parseParams_switch_unnamed L) s2 q2 = Inr (p, lg)"
    unfolding parseParams_unnamed_def
    using range_loop_split [of "parseParams_switch_unnamed L" _ q1 "(k, v # vs)" q2] by blast
  from loop_unnamed_keeps [OF rest assms(2)]
  have "field_kept (ToLower L k) (fst s2) p"
    by simp
  moreover have "parseParams_switch_unnamed L (fst s1, snd s1) (k, v # vs) = Inr (fst s2, snd s2)"
    using step by simp
  ultimately show ?thesis by blast
qed

lemma parseParams_total:
  assumes "[] \<notin> set (map snd q)"
  shows "\<exists>p lg. parseParams L q = Inr (p, lg)"
proof -
  have "\<exists>s'. range_loop (parseParams_switch L) (defaults q, []) q = Inr s'"
  proof (rule range_loop_total)
    fix a x
    assume "x \<in> set q"
    then have "snd x \<noteq> []" using assms by force
    then show "\<exists>b. parseParams_switch L a x = Inr b"
      using switch_total [of "snd x" L a "fst x"] by simp
  qed
  then show ?thesis by (auto simp: parseParams_def)
qed

lemma parseParams_unnamed_total:
  assumes "[] \<notin> set (map snd q)"
  shows "\<exists>p lg. parseParams_unnamed L q = Inr (p, lg)"
proof -
  have "\<exists>s'. range_loop (parseParams_switch_unnamed L) (defaults q, []) q = Inr s'"
  proof (rule range_loop_total)
    fix a x
    assume "x \<in> set q"
    then have "snd x \<noteq> []" using assms by force
    then show "\<exists>b. parseParams_switch_unnamed L a x = Inr b"
      using switch_unnamed_total [of "snd x" L a "fst x"] by simp
  qed
  then show ?thesis by (auto simp: parseParams_unnamed_def)
qed

section \<open>Evaluating the resolver\<close>

lemma ParseDuration_minus_5s: "time_ParseDuration ''-5s'' = (- 5000000000, None)"
  by (simp add: time_ParseDuration_def ParseDuration_loop.simps is_digit_def digit_val_def
      unitMap_def unit_char_def)

lemma ParseDuration_2s: "time_ParseDuration ''2s'' = (2000000000, None)"
  by (simp add: time_ParseDuration_def ParseDuration_loop.simps is_digit_def digit_val_def
      unitMap_def unit_char_def)

lemma ParseDuration_0: "time_ParseDuration ''0'' = (0, None)"
  by (simp add: time_ParseDuration_def)

lemma Atoi_abc: "strconv_Atoi ''abc'' = (0, Some ErrSyntax)"
  by (simp add: strconv_Atoi_def ParseInt_def ParseUint_def is_digit_def)

lemma Atoi_24: "strconv_Atoi ''24'' = (24, None)"
  by (simp add: strconv_Atoi_def ParseInt_def ParseUint_def is_digit_def digit_val_def
      maxUint64_def)

lemma Atoi_1024: "strconv_Atoi ''1024'' = (1024, None)"
  by (simp add: strconv_Atoi_def ParseInt_def ParseUint_def is_digit_def digit_val_def
      maxUint64_def)

lemma Atoi_10: "strconv_Atoi ''10'' = (10, None)"
  by (simp add: strconv_Atoi_def ParseInt_def ParseUint_def is_digit_def digit_val_def
      maxUint64_def)

lemma Atoi_0: "strconv_Atoi ''0'' = (0, None)"
  by (simp add: strconv_Atoi_def ParseInt_def ParseUint_def is_digit_def digit_val_def
      maxUint64_def)

lemmas resolver_eval =
  parseParams_def parseParams_switch_def parseParams_unnamed_def
  parseParams_switch_unnamed_def defaults_def Get_def index0_def strings_ToLower_def lower_def
  Let_def descriptor_def logged_def go_def defaultTimeout_def defaultInterval_def
  defaultCount_def defaultSize_def defaultTTL_def defaultProtocol_def defaultPacket_def
  minPacketSize_def maxPacketSize_def maxPacketSize_unnamed_def Second_def size_warning_def
  ParseDuration_minus_5s ParseDuration_2s ParseDuration_0 Atoi_abc Atoi_24 Atoi_1024 Atoi_10
  Atoi_0

section \<open>The first value of a key, and only the first, is read\<close>

lemma index0_take: "index0 (take (Suc 0) v) f = index0 v f"
  by (cases v) (auto simp: index0_def)

lemma switch_take:
  "parseParams_switch L a (k, take (Suc 0) v) = parseParams_switch L a (k, v)"
  by (cases a) (simp add: parseParams_switch_def index0_take Let_def)

lemma switch_unnamed_take:
  "parseParams_switch_unnamed L a (k, take (Suc 0) v) = parseParams_switch_unnamed L a (k, v)"
  by (cases a) (simp add: parseParams_switch_unnamed_def index0_take Let_def)

lemma map_of_firsts: "map_of (firsts q) key = map_option (take 1) (map_of q key)"
  by (induction q) (auto simp: firsts_def)

lemma Get_firsts: "Get (firsts q) key = Get q key"
  by (auto simp: Get_def map_of_firsts split: option.splits list.splits)

lemma defaults_firsts: "defaults (firsts q) = defaults q"
  by (simp add: defaults_def Get_firsts)

lemma parseParams_firsts: "parseParams L (firsts q) = parseParams L q"
proof -
  have "range_loop (parseParams_switch L) s (firsts q) = range_loop (parseParams_switch L) s q"
    for s
    unfolding firsts_def by (rule range_loop_map) (auto simp: switch_take)
  then show ?thesis by (simp add: parseParams_def defaults_firsts)
qed

lemma parseParams_unnamed_firsts: "parseParams_unnamed L (firsts q) = parseParams_unnamed L q"
proof -
  have "range_loop (parseParams_switch_unnamed L) s (firsts q) =
        range_loop (parseParams_switch_unnamed L) s q" for s
    unfolding firsts_def by (rule range_loop_map) (auto simp: switch_unnamed_take)
  then show ?thesis by (simp add: parseParams_unnamed_def defaults_firsts)
qed

lemma later_values_ignored:
  assumes "firsts q' = firsts q"
  shows "parseParams L q' = parseParams L q \<and>
         parseParams_unnamed L q' = parseParams_unnamed L q"
  using assms parseParams_firsts [of L q] parseParams_firsts [of L q']
    parseParams_unnamed_firsts [of L q] parseParams_unnamed_firsts [of L q']
  by simp

text \<open>
  The field that the first value \<open>v\<close> of a key decides, in the resolver of
  \<open>internal/collector/icmp_collector.go\<close>, when no key for the same field is visited
  after it.
\<close>

lemma first_value_read:
  assumes r: "parseParams L (q1 @ (k, v # vs) # q2) = Inr (p, lg)"
    and last: "\<forall>(k', v') \<in> set q2. \<not> same_field (ToLower L k') (ToLower L k)"
  shows "ToLower L k = ''target'' \<Longrightarrow> target p = v"
    and "ToLower L k = ''timeout'' \<Longrightarrow> snd (ParseDuration L v) = None \<Longrightarrow>
           timeout p = fst (ParseDuration L v)"
    and "ToLower L k = ''interval'' \<Longrightarrow> snd (ParseDuration L v) = None \<Longrightarrow>
           interval p = fst (ParseDuration L v)"
    and "ToLower L k = ''count'' \<Longrightarrow>
           count p = (if snd (Atoi L v) = None \<and> 0 < fst (Atoi L v) then fst (Atoi L v) else 5)"
    and "ToLower L k = ''size'' \<Longrightarrow>
           psize p = (if snd (Atoi L v) = None \<and> 24 \<le> fst (Atoi L v) \<and> fst (Atoi L v) \<le> 65507
                      then fst (Atoi L v) else 56)"
    and "ToLower L k = ''ttl'' \<Longrightarrow>
           ttl p = (if snd (Atoi L v) = None then fst (Atoi L v) else 64)"
    and "ToLower L k = ''protocol'' \<or> ToLower L k = ''prot'' \<Longrightarrow>
           protocol p = (if ToLower L v \<noteq> [] then ToLower L v else ''ip4'')"
    and "ToLower L k = ''packet'' \<Longrightarrow>
           packet p = (if ToLower L v \<noteq> [] then ToLower L v else ''icmp'')"
proof -
  from last_entry [OF r last] obtain p1 lg1 p2 lg2 where
    step: "parseParams_switch L (p1, lg1) (k, v # vs) = Inr (p2, lg2)"
    and kept: "field_kept (ToLower L k) p2 p"
    by blast
  show "ToLower L k = ''target'' \<Longrightarrow> target p = v"
    using step kept by (auto simp: switch_target field_kept_def)
  show "ToLower L k = ''timeout'' \<Longrightarrow> snd (ParseDuration L v) = None \<Longrightarrow>
           timeout p = fst (ParseDuration L v)"
    using step kept by (auto simp: switch_timeout field_kept_def)
  show "ToLower L k = ''interval'' \<Longrightarrow> snd (ParseDuration L v) = None \<Longrightarrow>
           interval p = fst (ParseDuration L v)"
    using step kept by (auto simp: switch_interval field_kept_def)
  show "ToLower L k = ''count'' \<Longrightarrow>
           count p = (if snd (Atoi L v) = None \<and> 0 < fst (Atoi L v) then fst (Atoi L v) else 5)"
    using step kept
    by (auto simp: switch_count field_kept_def defaultCount_def split: if_splits)
  show "ToLower L k = ''size'' \<Longrightarrow>
           psize p = (if snd (Atoi L v) = None \<and> 24 \<le> fst (Atoi L v) \<and> fst (Atoi L v) \<le> 65507
                      then fst (Atoi L v) else 56)"
    using step kept
    by (auto simp: switch_size field_kept_def defaultSize_def minPacketSize_def
        maxPacketSize_def split: if_splits)
  show "ToLower L k = ''ttl'' \<Longrightarrow>
           ttl p = (if snd (Atoi L v) = None then fst (Atoi L v) else 64)"
    using step kept by (auto simp: switch_ttl field_kept_def defaultTTL_def split: if_splits)
  show "ToLower L k = ''protocol'' \<or> ToLower L k = ''prot'' \<Longrightarrow>
           protocol p = (if ToLower L v \<noteq> [] then ToLower L v else ''ip4'')"
    using step kept
    by (auto simp: switch_protocol field_kept_def defaultProtocol_def split: if_splits)
  show "ToLower L k = ''packet'' \<Longrightarrow>
           packet p = (if ToLower L v \<noteq> [] then ToLower L v else ''icmp'')"
    using step kept
    by (auto simp: switch_packet field_kept_def defaultPacket_def split: if_splits)
qed

text \<open>The same for the resolver of \<open>unnamed/part_000\<close>, which has no key \<open>prot\<close>.\<close>

lemma first_value_read_unnamed:
  assumes r: "parseParams_unnamed L (q1 @ (k, v # vs) # q2) = Inr (p, lg)"
    and last: "\<forall>(k', v') \<in> set q2. \<not> same_field (ToLower L k') (ToLower L k)"
  shows "ToLower L k = ''target'' \<Longrightarrow> target p = v"
    and "ToLower L k = ''timeout'' \<Longrightarrow> snd (ParseDuration L v) = None \<Longrightarrow>
           timeout p = fst (ParseDuration L v)"
    and "ToLower L k = ''interval'' \<Longrightarrow> snd (ParseDuration L v) = None \<Longrightarrow>
           interval p = fst (ParseDuration L v)"
    and "ToLower L k = ''count'' \<Longrightarrow>
           count p = (if snd (Atoi L v) = None \<and> 0 < fst (Atoi L v) then fst (Atoi L v) else 5)"
    and "ToLower L k = ''size'' \<Longrightarrow>
           psize p = (if snd (Atoi L v) = None \<and> 24 < fst (Atoi L v) \<and> fst (Atoi L v) < 1024
                      then fst (Atoi L v) else 56)"
    and "ToLower L k = ''ttl'' \<Longrightarrow>
           ttl p = (if snd (Atoi L v) = None then fst (Atoi L v) else 64)"
    and "ToLower L k = ''protocol'' \<Longrightarrow>
           protocol p = (if ToLower L v \<noteq> [] then ToLower L v else ''ip4'')"
    and "ToLower L k = ''packet'' \<Longrightarrow>
           packet p = (if ToLower L v \<noteq> [] then ToLower L v else ''icmp'')"
proof -
  from last_entry_unnamed [OF r last] obtain p1 lg1 p2 lg2 where
    step: "parseParams_switch_unnamed L (p1, lg1) (k, v # vs) = Inr (p2, lg2)"
    and kept: "field_kept (ToLower L k) p2 p"
    by blast
  show "ToLower L k = ''target'' \<Longrightarrow> target p = v"
    using step kept by (auto simp: switch_unnamed_target field_kept_def)
  show "ToLower L k = ''timeout'' \<Longrightarrow> snd (ParseDuration L v) = None \<Longrightarrow>
           timeout p = fst (ParseDuration L v)"
    using step kept by (auto simp: switch_unnamed_timeout field_kept_def)
  show "ToLower L k = ''interval'' \<Longrightarrow> snd (ParseDuration L v) = None \<Longrightarrow>
           interval p = fst (ParseDuration L v)"
    using step kept by (auto simp: switch_unnamed_interval field_kept_def)
  show "ToLower L k = ''count'' \<Longrightarrow>
           count p = (if snd (Atoi L v) = None \<and> 0 < fst (Atoi L v) then fst (Atoi L v) else 5)"
    using step kept
    by (auto simp: switch_unnamed_count field_kept_def defaultCount_def split: if_splits)
  show "ToLower L k = ''size'' \<Longrightarrow>
           psize p = (if snd (Atoi L v) = None \<and> 24 < fst (Atoi L v) \<and> fst (Atoi L v) < 1024
                      then fst (Atoi L v) else 56)"
    using step kept
    by (auto simp: switch_unnamed_size field_kept_def defaultSize_def minPacketSize_def
        maxPacketSize_unnamed_def split: if_splits)
  show "ToLower L k = ''ttl'' \<Longrightarrow>
           ttl p = (if snd (Atoi L v) = None then fst (Atoi L v) else 64)"
    using step kept
    by (auto simp: switch_unnamed_ttl field_kept_def defaultTTL_def split: if_splits)
  show "ToLower L k = ''protocol'' \<Longrightarrow>
           protocol p = (if ToLower L v \<noteq> [] then ToLower L v else ''ip4'')"
    using step kept
    by (auto simp: switch_unnamed_protocol field_kept_def defaultProtocol_def split: if_splits)
  show "ToLower L k = ''packet'' \<Longrightarrow>
           packet p = (if ToLower L v \<noteq> [] then ToLower L v else ''icmp'')"
    using step kept
    by (auto simp: switch_unnamed_packet field_kept_def defaultPacket_def split: if_splits)
qed

text \<open>
  Both resolvers on a query that they resolve: the later values of every key are
  ignored, and the field of the last key visited for it holds what the switch computes
  from the first value of that key.
\<close>

lemma first_value_fields:
  assumes "firsts q' = firsts q"
    and "q = q1 @ (k, v # vs) # q2"
    and "\<forall>(k', v') \<in> set q2. \<not> same_field (ToLower L k') (ToLower L k)"
    and "parseParams L q = Inr (p, lg)"
    and "parseParams_unnamed L q = Inr (p', lg')"
  shows "parseParams L q' = Inr (p, lg) \<and> parseParams_unnamed L q' = Inr (p', lg') \<and>
    (ToLower L k = ''target'' \<longrightarrow> target p = v \<and> target p' = v) \<and>
    (ToLower L k = ''timeout'' \<and> snd (ParseDuration L v) = None \<longrightarrow>
       timeout p = fst (ParseDuration L v) \<and> timeout p' = fst (ParseDuration L v)) \<and>
    (ToLower L k = ''interval'' \<and> snd (ParseDuration L v) = None \<longrightarrow>
       interval p = fst (ParseDuration L v) \<and> interval p' = fst (ParseDuration L v)) \<and>
    (ToLower L k = ''count'' \<longrightarrow>
       count p = (if snd (Atoi L v) = None \<and> 0 < fst (Atoi L v) then fst (Atoi L v) else 5) \<and>
       count p' = (if snd (Atoi L v) = None \<and> 0 < fst (Atoi L v) then fst (Atoi L v) else 5)) \<and>
    (ToLower L k = ''size'' \<longrightarrow>
       psize p = (if snd (Atoi L v) = None \<and> 24 \<le> fst (Atoi L v) \<and> fst (Atoi L v) \<le> 65507
                  then fst (Atoi L v) else 56) \<and>
       psize p' = (if snd (Atoi L v) = None \<and> 24 < fst (Atoi L v) \<and> fst (Atoi L v) < 1024
                   then fst (Atoi L v) else 56)) \<and>
    (ToLower L k = ''ttl'' \<longrightarrow>
       ttl p = (if snd (Atoi L v) = None then fst (Atoi L v) else 64) \<and>
       ttl p' = (if snd (Atoi L v) = None then fst (Atoi L v) else 64)) \<and>
    (ToLower L k = ''protocol'' \<longrightarrow>
       protocol p = (if ToLower L v \<noteq> [] then ToLower L v else ''ip4'') \<and>
       protocol p' = (if ToLower L v \<noteq> [] then ToLower L v else ''ip4'')) \<and>
    (ToLower L k = ''prot'' \<longrightarrow>
       protocol p = (if ToLower L v \<noteq> [] then ToLower L v else ''ip4'')) \<and>
    (ToLower L k = ''packet'' \<longrightarrow>
       packet p = (if ToLower L v \<noteq> [] then ToLower L v else ''icmp'') \<and>
       packet p' = (if ToLower L v \<noteq> [] then ToLower L v else ''icmp''))"
proof -
  have r: "parseParams L (q1 @ (k, v # vs) # q2) = Inr (p, lg)"
    and r': "parseParams_unnamed L (q1 @ (k, v # vs) # q2) = Inr (p', lg')"
    using assms(2,4,5) by simp_all
  note a = first_value_read [OF r assms(3)]
  note b = first_value_read_unnamed [OF r' assms(3)]
  have "parseParams L q' = Inr (p, lg) \<and> parseParams_unnamed L q' = Inr (p', lg')"
    using later_values_ignored [OF assms(1), of L] assms(4,5) by simp
  moreover have "ToLower L k = ''target'' \<longrightarrow> target p = v \<and> target p' = v"
    using a(1) b(1) by blast
  moreover have "ToLower L k = ''timeout'' \<and> snd (ParseDuration L v) = None \<longrightarrow>
       timeout p = fst (ParseDuration L v) \<and> timeout p' = fst (ParseDuration L v)"
    using a(2) b(2) by blast
  moreover have "ToLower L k = ''interval'' \<and> snd (ParseDuration L v) = None \<longrightarrow>
       interval p = fst (ParseDuration L v) \<and> interval p' = fst (ParseDuration L v)"
    using a(3) b(3) by blast
  moreover have "ToLower L k = ''count'' \<longrightarrow>
       count p = (if snd (Atoi L v) = None \<and> 0 < fst (Atoi L v) then fst (Atoi L v) else 5) \<and>
       count p' = (if snd (Atoi L v) = None \<and> 0 < fst (Atoi L v) then fst (Atoi L v) else 5)"
    using a(4) b(4) by blast
  moreover have "ToLower L k = ''size'' \<longrightarrow>
       psize p = (if snd (Atoi L v) = None \<and> 24 \<le> fst (Atoi L v) \<and> fst (Atoi L v) \<le> 65507
                  then fst (Atoi L v) else 56) \<and>
       psize p' = (if snd (Atoi L v) = None \<and> 24 < fst (Atoi L v) \<and> fst (Atoi L v) < 1024
                   then fst (Atoi L v) else 56)"
    using a(5) b(5) by blast
  moreover have "ToLower L k = ''ttl'' \<longrightarrow>
       ttl p = (if snd (Atoi L v) = None then fst (Atoi L v) else 64) \<and>
       ttl p' = (if snd (Atoi L v) = None then fst (Atoi L v) else 64)"
    using a(6) b(6) by blast
  moreover have "ToLower L k = ''protocol'' \<longrightarrow>
       protocol p = (if ToLower L v \<noteq> [] then ToLower L v else ''ip4'') \<and>
       protocol p' = (if ToLower L v \<noteq> [] then ToLower L v else ''ip4'')"
    using a(7) b(7) by blast
  moreover have "ToLower L k = ''prot'' \<longrightarrow>
       protocol p = (if ToLower L v \<noteq> [] then ToLower L v else ''ip4'')"
    using a(7) by blast
  moreover have "ToLower L k = ''packet'' \<longrightarrow>
       packet p = (if ToLower L v \<noteq> [] then ToLower L v else ''icmp'') \<and>
       packet p' = (if ToLower L v \<noteq> [] then ToLower L v else ''icmp'')"
    using a(8) b(8) by blast
  ultimately show ?thesis by blast
qed

text \<open>
  C10. Let a query (a \<open>url.Values\<close>) have the key \<open>k\<close> with the values \<open>v # vs\<close>, and let
  no key for the same field be visited after it. Both resolvers, that of
  \<open>internal/collector/icmp_collector.go\<close> and that of \<open>unnamed/part_000\<close>, return a
  descriptor, and they ignore the later values \<open>vs\<close>: every query \<open>q'\<close> with the same
  keys in the same order and the same first values resolves to the same descriptor and
  log. And both use the first value \<open>v\<close>: a recognized key \<open>k\<close> writes to its field what
  the switch computes from \<open>v\<close> (the target \<open>v\<close> itself, the duration or number parsed
  from \<open>v\<close>, \<open>v\<close> in lower case), and that is the value of the field in the descriptor.
\<close>

theorem first_value_only:
  assumes "Values_ok q"
    and "firsts q' = firsts q"
    and "q = q1 @ (k, v # vs) # q2"
    and "\<forall>(k', v') \<in> set q2. \<not> same_field (ToLower L k') (ToLower L k)"
  shows "\<exists>p lg p' lg'.
    parseParams L q = Inr (p, lg) \<and> parseParams_unnamed L q = Inr (p', lg') \<and>
    parseParams L q' = Inr (p, lg) \<and> parseParams_unnamed L q' = Inr (p', lg') \<and>
    (ToLower L k = ''target'' \<longrightarrow> target p = v \<and> target p' = v) \<and>
    (ToLower L k = ''timeout'' \<and> snd (ParseDuration L v) = None \<longrightarrow>
       timeout p = fst (ParseDuration L v) \<and> timeout p' = fst (ParseDuration L v)) \<and>
    (ToLower L k = ''interval'' \<and> snd (ParseDuration L v) = None \<longrightarrow>
       interval p = fst (ParseDuration L v) \<and> interval p' = fst (ParseDuration L v)) \<and>
    (ToLower L k = ''count'' \<longrightarrow>
       count p = (if snd (Atoi L v) = None \<and> 0 < fst (Atoi L v) then fst (Atoi L v) else 5) \<and>
       count p' = (if snd (Atoi L v) = None \<and> 0 < fst (Atoi L v) then fst (Atoi L v) else 5)) \<and>
    (ToLower L k = ''size'' \<longrightarrow>
       psize p = (if snd (Atoi L v) = None \<and> 24 \<le> fst (Atoi L v) \<and> fst (Atoi L v) \<le> 65507
                  then fst (Atoi L v) else 56) \<and>
       psize p' = (if snd (Atoi L v) = None \<and> 24 < fst (Atoi L v) \<and> fst (Atoi L v) < 1024
                   then fst (Atoi L v) else 56)) \<and>
    (ToLower L k = ''ttl'' \<longrightarrow>
       ttl p = (if snd (Atoi L v) = None then fst (Atoi L v) else 64) \<and>
       ttl p' = (if snd (Atoi L v) = None then fst (Atoi L v) else 64)) \<and>
    (ToLower L k = ''protocol'' \<longrightarrow>
       protocol p = (if ToLower L v \<noteq> [] then ToLower L v else ''ip4'') \<and>
       protocol p' = (if ToLower L v \<noteq> [] then ToLower L v else ''ip4'')) \<and>
    (ToLower L k = ''prot'' \<longrightarrow>
       protocol p = (if ToLower L v \<noteq> [] then ToLower L v else ''ip4'')) \<and>
    (ToLower L k = ''packet'' \<longrightarrow>
       packet p = (if ToLower L v \<noteq> [] then ToLower L v else ''icmp'') \<and>
       packet p' = (if ToLower L v \<noteq> [] then ToLower L v else ''icmp''))"
proof -
  have ne: "[] \<notin> set (map snd q)"
    using assms(1) by (simp add: Values_ok_def)
  obtain p lg where r: "parseParams L q = Inr (p, lg)"
    using parseParams_total [OF ne] by blast
  obtain p' lg' where r': "parseParams_unnamed L q = Inr (p', lg')"
    using parseParams_unnamed_total [OF ne] by blast
  from first_value_fields [OF assms(2,3,4) r r']
  show ?thesis
    using r r' by (intro exI [of _ p] exI [of _ lg] exI [of _ p'] exI [of _ lg']) simp
qed

theorem first_value_only_witness:
  "Values_ok [(''Timeout'', [''2s'', ''-5s'']), (''size'', [''24'', ''abc''])] \<and>
   firsts [(''Timeout'', [''2s'']), (''size'', [''24'', ''10'', ''0''])] =
     firsts [(''Timeout'', [''2s'', ''-5s'']), (''size'', [''24'', ''abc''])] \<and>
   ToLower go ''Timeout'' = ''timeout'' \<and>
   ParseDuration go ''2s'' = (2000000000, None) \<and>
   parseParams go [(''Timeout'', [''2s'']), (''size'', [''24'', ''10'', ''0''])] =
     parseParams go [(''Timeout'', [''2s'', ''-5s'']), (''size'', [''24'', ''abc''])] \<and>
   parseParams_unnamed go [(''Timeout'', [''2s'']), (''size'', [''24'', ''10'', ''0''])] =
     parseParams_unnamed go [(''Timeout'', [''2s'', ''-5s'']), (''size'', [''24'', ''abc''])] \<and>
   map_option timeout (descriptor (parseParams go
     [(''Timeout'', [''2s'', ''-5s'']), (''size'', [''24'', ''abc''])])) = Some 2000000000 \<and>
   map_option timeout (descriptor (parseParams_unnamed go
     [(''Timeout'', [''2s'', ''-5s'']), (''size'', [''24'', ''abc''])])) = Some 2000000000"
proof -
  let ?q = "[(''Timeout'', [''2s'', ''-5s'']), (''size'', [''24'', ''abc''])]"
  let ?q' = "[(''Timeout'', [''2s'']), (''size'', [''24'', ''10'', ''0''])]"
  have ok: "Values_ok ?q"
    by (simp add: Values_ok_def)
  have f: "firsts ?q' = firsts ?q"
    by (simp add: firsts_def)
  have q: "?q = [] @ (''Timeout'', ''2s'' # [''-5s'']) # [(''size'', [''24'', ''abc''])]"
    by simp
  have last: "\<forall>(k', v') \<in> set [(''size'', [''24'', ''abc''])].
      \<not> same_field (ToLower go k') (ToLower go ''Timeout'')"
    by (simp add: same_field_def go_def strings_ToLower_def lower_def)
  have k: "ToLower go ''Timeout'' = ''timeout''"
    by (simp add: go_def strings_ToLower_def lower_def)
  have d: "ParseDuration go ''2s'' = (2000000000, None)"
    by (simp add: go_def ParseDuration_2s)
  from first_value_only [OF ok f q last] obtain p lg p' lg' where
    r: "parseParams go ?q = Inr (p, lg)" and r': "parseParams_unnamed go ?q = Inr (p', lg')"
    and s: "parseParams go ?q' = Inr (p, lg)" and s': "parseParams_unnamed go ?q' = Inr (p', lg')"
    and t: "ToLower go ''Timeout'' = ''timeout'' \<and> snd (ParseDuration go ''2s'') = None \<longrightarrow>
       timeout p = fst (ParseDuration go ''2s'') \<and> timeout p' = fst (ParseDuration go ''2s'')"
    by blast
  have "timeout p = 2000000000 \<and> timeout p' = 2000000000"
    using t k d by simp
  then show ?thesis
    using ok f k d r r' s s' by (simp add: descriptor_def)
qed

section \<open>The size\<close>

lemma same_field_size: "same_field a ''size'' = (a = ''size'')"
  by (auto simp: same_field_def)

text \<open>
  The last key visited that folds to \<open>size\<close>, in \<open>internal/collector/icmp_collector.go\<close>:
  its first value decides the size, and a rejected value leaves the warning in the log.
\<close>

lemma size_resolved:
  assumes r: "parseParams L (q1 @ (k, v # vs) # q2) = Inr (p, lg)"
    and key: "ToLower L k = ''size''"
    and last: "\<forall>(k', v') \<in> set q2. ToLower L k' \<noteq> ''size''"
    and atoi: "Atoi L v = (n, err)"
  shows "if err = None \<and> 24 \<le> n \<and> n \<le> 65507 then psize p = n
         else psize p = 56 \<and> size_warning (AInt n) \<in> set lg"
proof -
  have last': "\<forall>(k', v') \<in> set q2. \<not> same_field (ToLower L k') (ToLower L k)"
    using last by (simp add: key same_field_size)
  from last_entry [OF r last'] obtain p1 lg1 p2 lg2 where
    step: "parseParams_switch L (p1, lg1) (k, v # vs) = Inr (p2, lg2)"
    and kept: "field_kept (ToLower L k) p2 p" and sub: "set lg2 \<subseteq> set lg"
    by blast
  have size: "psize p = psize p2"
    using kept by (simp add: key field_kept_def)
  show ?thesis
  proof (cases "err = None \<and> 24 \<le> n \<and> n \<le> 65507")
    case True
    then have "p2 = p1\<lparr>psize := n\<rparr>"
      using step atoi by (simp add: switch_size [OF key] maxPacketSize_def minPacketSize_def)
    then show ?thesis using True size by simp
  next
    case False
    then have "p2 = p1\<lparr>psize := defaultSize\<rparr> \<and> lg2 = lg1 @ [size_warning (AInt n)]"
      using step atoi
      by (auto simp: switch_size [OF key] maxPacketSize_def minPacketSize_def)
    then show ?thesis using False size sub by (auto simp: defaultSize_def)
  qed
qed

text \<open>The same key in \<open>unnamed/part_000\<close>: both bounds are strict, and the upper one is 1024.\<close>

lemma size_resolved_unnamed:
  assumes r: "parseParams_unnamed L (q1 @ (k, v # vs) # q2) = Inr (p, lg)"
    and key: "ToLower L k = ''size''"
    and last: "\<forall>(k', v') \<in> set q2. ToLower L k' \<noteq> ''size''"
    and atoi: "Atoi L v = (n, err)"
  shows "psize p = (if err = None \<and> 24 < n \<and> n < 1024 then n else 56)"
proof -
  have last': "\<forall>(k', v') \<in> set q2. \<not> same_field (ToLower L k') (ToLower L k)"
    using last by (simp add: key same_field_size)
  from first_value_read_unnamed(5) [OF r last' key] atoi
  show ?thesis by simp
qed

text \<open>
  C3, as amended. Let \<open>(k, v # vs)\<close> be the last entry of the query, in the order the
  resolver visits it, whose key folds to \<open>size\<close>, and let \<open>strconv.Atoi\<close> read its first
  value \<open>v\<close> as \<open>n\<close> with the error \<open>err\<close>. Both resolvers return a descriptor.
  In \<open>internal/collector/icmp_collector.go\<close> the size is \<open>n\<close> when \<open>v\<close> parses and
  \<open>24 \<le> n \<le> 65507\<close> (both bounds included); otherwise it is 56 and the size warning is
  in the log, and when \<open>v\<close> parsed the warning names \<open>n\<close>.
  In \<open>unnamed/part_000\<close> the size is \<open>n\<close> when \<open>v\<close> parses and \<open>24 < n < 1024\<close> (both
  bounds excluded); otherwise it is 56.
\<close>

theorem size_bounds:
  assumes "Values_ok q" and "q = q1 @ (k, v # vs) # q2" and "ToLower L k = ''size''"
    and "\<forall>(k', v') \<in> set q2. ToLower L k' \<noteq> ''size''"
    and "Atoi L v = (n, err)"
  shows "(\<exists>p lg. parseParams L q = Inr (p, lg) \<and>
            (if err = None \<and> 24 \<le> n \<and> n \<le> 65507 then psize p = n
             else psize p = 56 \<and>
                  (\<exists>a. size_warning a \<in> set lg \<and> (err = None \<longrightarrow> a = AInt n)))) \<and>
         (\<exists>p lg. parseParams_unnamed L q = Inr (p, lg) \<and>
            psize p = (if err = None \<and> 24 < n \<and> n < 1024 then n else 56))"
proof -
  have ne: "[] \<notin> set (map snd q)"
    using assms(1) by (simp add: Values_ok_def)
  obtain p lg where r: "parseParams L q = Inr (p, lg)"
    using parseParams_total [OF ne] by blast
  obtain p' lg' where r': "parseParams_unnamed L q = Inr (p', lg')"
    using parseParams_unnamed_total [OF ne] by blast
  have a: "if err = None \<and> 24 \<le> n \<and> n \<le> 65507 then psize p = n
      else psize p = 56 \<and> size_warning (AInt n) \<in> set lg"
    using size_resolved [OF _ assms(3,4,5)] r assms(2) by simp
  have "if err = None \<and> 24 \<le> n \<and> n \<le> 65507 then psize p = n
      else psize p = 56 \<and> (\<exists>a. size_warning a \<in> set lg \<and> (err = None \<longrightarrow> a = AInt n))"
    using a by (cases "err = None \<and> 24 \<le> n \<and> n \<le> 65507") auto
  moreover have "psize p' = (if err = None \<and> 24 < n \<and> n < 1024 then n else 56)"
    using size_resolved_unnamed [OF _ assms(3,4,5)] r' assms(2) by simp
  ultimately show ?thesis
    using r r' by blast
qed

theorem size_bounds_witness:
  "Values_ok [(''target'', [''example.com'']), (''Size'', [''10'', ''24''])] \<and>
   ToLower go ''Size'' = ''size'' \<and>
   Atoi go ''10'' = (10, None) \<and>
   map_option psize (descriptor (parseParams go
      [(''target'', [''example.com'']), (''Size'', [''10'', ''24''])])) = Some 56 \<and>
   logged (parseParams go [(''target'', [''example.com'']), (''Size'', [''10'', ''24''])]) =
      Some [size_warning (AInt 10)] \<and>
   map_option psize (descriptor (parseParams_unnamed go
      [(''target'', [''example.com'']), (''Size'', [''10'', ''24''])])) = Some 56"
proof -
  let ?q = "[(''target'', [''example.com'']), (''Size'', [''10'', ''24''])]"
  have ok: "Values_ok ?q"
    by (simp add: Values_ok_def)
  have q: "?q = [(''target'', [''example.com''])] @ (''Size'', ''10'' # [''24'']) # []"
    by simp
  have key: "ToLower go ''Size'' = ''size''"
    by (simp add: go_def strings_ToLower_def lower_def)
  have last: "\<forall>(k', v') \<in> set []. ToLower go k' \<noteq> ''size''"
    by simp
  have atoi: "Atoi go ''10'' = (10, None)"
    by (simp add: go_def Atoi_10)
  have e1: "parseParams go ?q =
      Inr (\<lparr>target = ''example.com'', timeout = 10000000000, interval = 1000000000, count = 5,
            psize = 56, ttl = 64, protocol = ''ip4'', packet = ''icmp''\<rparr>,
           [size_warning (AInt 10)])"
    by (simp add: resolver_eval)
  have e2: "parseParams_unnamed go ?q =
      Inr (\<lparr>target = ''example.com'', timeout = 10000000000, interval = 1000000000, count = 5,
            psize = 56, ttl = 64, protocol = ''ip4'', packet = ''icmp''\<rparr>, [])"
    by (simp add: resolver_eval)
  show ?thesis
    using size_bounds [OF ok q key last atoi] ok key atoi e1 e2
    by (simp add: descriptor_def logged_def)
qed

text \<open>
  C3 as stated fails. For the value \<open>abc\<close> the warning of
  \<open>internal/collector/icmp_collector.go\<close> names 0, the number \<open>Atoi\<close> returns with its
  error, and not the value. \<open>unnamed/part_000\<close> logs nothing for the rejected size 10.
  The two files do not agree on the bounds: 24 and 1024 are kept by
  \<open>internal/collector/icmp_collector.go\<close> and reset by \<open>unnamed/part_000\<close>. And with
  two keys that fold to \<open>size\<close> the one visited last decides: the in-bounds value 24 is
  lost when \<open>SIZE=10\<close> is visited after it.
\<close>

theorem size_warning_names_zero:
  "logged (parseParams go [(''size'', [''abc''])]) = Some [size_warning (AInt 0)] \<and>
   logged (parseParams_unnamed go [(''size'', [''10''])]) = Some [] \<and>
   map_option psize (descriptor (parseParams_unnamed go [(''size'', [''10''])])) = Some 56 \<and>
   map_option psize (descriptor (parseParams go [(''size'', [''24''])])) = Some 24 \<and>
   map_option psize (descriptor (parseParams_unnamed go [(''size'', [''24''])])) = Some 56 \<and>
   map_option psize (descriptor (parseParams go [(''size'', [''1024''])])) = Some 1024 \<and>
   map_option psize (descriptor (parseParams_unnamed go [(''size'', [''1024''])])) = Some 56 \<and>
   map_option psize (descriptor (parseParams go
      [(''size'', [''24'']), (''SIZE'', [''10''])])) = Some 56 \<and>
   map_option psize (descriptor (parseParams go
      [(''SIZE'', [''10'']), (''size'', [''24''])])) = Some 24"
  by (simp add: resolver_eval)

section \<open>The handler of \<open>internal/collector/icmp_collector.go\<close>\<close>

lemma Timeout_configure: "Timeout (configure W p) = timeout p"
  by (simp add: configure_def Let_def SetPrivileged_def SetNetwork_def)

lemma Interval_configure: "Interval (configure W p) = interval p"
  by (simp add: configure_def Let_def SetPrivileged_def SetNetwork_def)

lemma privileged_configure: "privileged (configure W p) = (packet p = ''icmp'')"
  by (simp add: configure_def Let_def SetPrivileged_def SetNetwork_def)

lemma network_configure:
  "network (configure W p) =
     (if protocol p = ''v6'' \<or> protocol p = ''6'' \<or> protocol p = ''ip6'' then ''ip6''
      else ''ip4'')"
  by (simp add: configure_def Let_def SetPrivileged_def SetNetwork_def)

lemma new_metrics_cells:
  "new_metrics h = (m, h') \<Longrightarrow>
     PingSuccessGauge m = \<lparr>fqName = ''ping_success'', cell = next_gauge h\<rparr> \<and>
     PingTimeoutGauge m = \<lparr>fqName = ''ping_timeout'', cell = next_gauge h + 1\<rparr> \<and>
     ProbeDurationGauge m = \<lparr>fqName = ''ping_duration_seconds'', cell = next_gauge h + 2\<rparr> \<and>
     MinGauge m = \<lparr>fqName = ''ping_rtt_min_seconds'', cell = next_gauge h + 3\<rparr> \<and>
     MaxGauge m = \<lparr>fqName = ''ping_rtt_max_seconds'', cell = next_gauge h + 4\<rparr> \<and>
     AvgGauge m = \<lparr>fqName = ''ping_rtt_avg_seconds'', cell = next_gauge h + 5\<rparr> \<and>
     StddevGauge m = \<lparr>fqName = ''ping_rtt_std_deviation'', cell = next_gauge h + 6\<rparr> \<and>
     LossGauge m = \<lparr>fqName = ''ping_loss_ratio'', cell = next_gauge h + 7\<rparr> \<and>
     next_gauge h' = next_gauge h + 8 \<and>
     (\<forall>a. gauge_val h' a =
        (if next_gauge h \<le> a \<and> a < next_gauge h + 8 then 0 else gauge_val h a))"
  by (auto simp: new_metrics_def NewGauge_def namespace_def)

text \<open>The eight gauges of a request, gathered: sorted by name.\<close>

lemma Gather_eight:
  "Gather h
     [\<lparr>fqName = ''ping_success'', cell = a0\<rparr>, \<lparr>fqName = ''ping_timeout'', cell = a1\<rparr>,
      \<lparr>fqName = ''ping_duration_seconds'', cell = a2\<rparr>,
      \<lparr>fqName = ''ping_rtt_min_seconds'', cell = a3\<rparr>,
      \<lparr>fqName = ''ping_rtt_max_seconds'', cell = a4\<rparr>,
      \<lparr>fqName = ''ping_rtt_avg_seconds'', cell = a5\<rparr>,
      \<lparr>fqName = ''ping_rtt_std_deviation'', cell = a6\<rparr>,
      \<lparr>fqName = ''ping_loss_ratio'', cell = a7\<rparr>] =
     [(''ping_duration_seconds'', gauge_val h a2), (''ping_loss_ratio'', gauge_val h a7),
      (''ping_rtt_avg_seconds'', gauge_val h a5), (''ping_rtt_max_seconds'', gauge_val h a4),
      (''ping_rtt_min_seconds'', gauge_val h a3),
      (''ping_rtt_std_deviation'', gauge_val h a6),
      (''ping_success'', gauge_val h a0), (''ping_timeout'', gauge_val h a1)]"
  by (simp add: Gather_def)

text \<open>
  The response of the handler when \<open>Run\<close> returns, whatever the store it starts from:
  status 200 and the eight gauges; all of them 0 when \<open>Run\<close> did not call \<open>OnFinish\<close>.
\<close>

lemma PingHandler_body:
  assumes "parseParams L q = Inr (p, lg)" and "Run W (configure W p) = Inr (r, err)"
  shows "\<exists>out. PingHandler L W q h = Inr out \<and> probe out = Some (configure W p) \<and>
     status (resp out) = 200 \<and>
     body (resp out) =
       (case r of
          None \<Rightarrow>
            [(''ping_duration_seconds'', 0), (''ping_loss_ratio'', 0),
             (''ping_rtt_avg_seconds'', 0), (''ping_rtt_max_seconds'', 0),
             (''ping_rtt_min_seconds'', 0), (''ping_rtt_std_deviation'', 0),
             (''ping_success'', 0), (''ping_timeout'', 0)]
        | Some fin \<Rightarrow>
            [(''ping_duration_seconds'', Seconds (since_duration W)),
             (''ping_loss_ratio'', PacketLoss (stats fin)),
             (''ping_rtt_avg_seconds'', Seconds (AvgRtt (stats fin))),
             (''ping_rtt_max_seconds'', Seconds (MaxRtt (stats fin))),
             (''ping_rtt_min_seconds'', Seconds (MinRtt (stats fin))),
             (''ping_rtt_std_deviation'', real_of_int (StdDevRtt (stats fin))),
             (''ping_success'',
                if 0 < recv fin \<and> since_success_check W < timeout p then 1 else 0),
             (''ping_timeout'',
                if \<not> (0 < recv fin \<and> since_success_check W < timeout p) \<and>
                   timeout p < since_timeout_check W then 1 else 0)])"
proof -
  obtain m h' where mh: "new_metrics h = (m, h')"
    by (cases "new_metrics h")
  note c = new_metrics_cells [OF mh]
  show ?thesis
    using assms c
    by (cases r)
       (auto simp: PingHandler_def mh serveMetricsWithError_def Gather_eight OnFinish_def
          classify_def Gauge_Set_def Timeout_configure Let_def)
qed

lemma PingHandler_parse:
  assumes "PingHandler L W q h = Inr out"
  shows "\<exists>p lg r err. parseParams L q = Inr (p, lg) \<and> probe out = Some (configure W p) \<and>
           Run W (configure W p) = Inr (r, err)"
  using assms
  by (auto simp: PingHandler_def Let_def split: prod.splits sum.splits)

lemma PingHandler_panic:
  assumes "parseParams L q = Inl e"
  shows "PingHandler L W q h = Inl e"
proof -
  obtain m h' where mh: "new_metrics h = (m, h')"
    by (cases "new_metrics h")
  note c = new_metrics_cells [OF mh]
  show ?thesis
    using assms c by (simp add: PingHandler_def mh)
qed

text \<open>A panic of \<open>Run\<close> ends the request without a response.\<close>

lemma PingHandler_Run_panic:
  assumes "parseParams L q = Inr (p, lg)" and "Run W (configure W p) = Inl e"
  shows "PingHandler L W q h = Inl e"
proof -
  obtain m h' where mh: "new_metrics h = (m, h')"
    by (cases "new_metrics h")
  note c = new_metrics_cells [OF mh]
  show ?thesis
    using assms c by (simp add: PingHandler_def mh)
qed

text \<open>The store the handler leaves: it writes to its own eight gauges and to no other.\<close>

lemma PingHandler_frame:
  assumes "PingHandler L W q h = Inr out" and "a < next_gauge h"
  shows "gauge_val (store_after out) a = gauge_val h a \<and>
         next_gauge (store_after out) = next_gauge h + 8"
proof -
  obtain m h' where mh: "new_metrics h = (m, h')"
    by (cases "new_metrics h")
  note c = new_metrics_cells [OF mh]
  obtain p lg r err where p: "parseParams L q = Inr (p, lg)"
    and run: "Run W (configure W p) = Inr (r, err)"
    using PingHandler_parse [OF assms(1)] by blast
  show ?thesis
    using assms c p run
    by (cases r)
       (auto simp: PingHandler_def mh OnFinish_def classify_def Gauge_Set_def Let_def)
qed

text \<open>
  The response does not depend on the store the handler starts from, so it does not
  depend on any request answered before.
\<close>

lemma PingHandler_isolated:
  "response_of (PingHandler L W q h) = response_of (PingHandler L W q h')"
proof (cases "parseParams L q")
  case (Inl e)
  then show ?thesis
    by (simp add: PingHandler_panic)
next
  case (Inr s)
  then obtain p lg where p: "parseParams L q = Inr (p, lg)"
    by (cases s) auto
  show ?thesis
  proof (cases "Run W (configure W p)")
    case (Inl e)
    then show ?thesis
      by (simp add: PingHandler_Run_panic [OF p])
  next
    case (Inr x)
    then obtain r err where "Run W (configure W p) = Inr (r, err)"
      by (cases x) auto
    from PingHandler_body [OF p this, of h] PingHandler_body [OF p this, of h']
    show ?thesis
      by (auto simp: response_of_def intro!: response.equality)
  qed
qed

lemma two_requests_isolated:
  assumes "PingHandler L W1 q1 h = Inr out1"
  shows "response_of (two_requests L W1 q1 W2 q2 h) = response_of (PingHandler L W2 q2 h)"
  using assms PingHandler_isolated [of L W2 q2 "store_after out1" h]
  by (simp add: two_requests_def)

text \<open>The pinger that is run is privileged exactly for the packet \<open>icmp\<close>.\<close>

lemma privileged_iff_icmp:
  assumes "PingHandler L W q h = Inr out"
  shows "\<exists>p lg pg. parseParams L q = Inr (p, lg) \<and> probe out = Some pg \<and>
           privileged pg = (packet p = ''icmp'')"
  using PingHandler_parse [OF assms] privileged_configure by blast

lemma family_by_protocol:
  assumes "PingHandler L W q h = Inr out"
  shows "\<exists>p lg pg. parseParams L q = Inr (p, lg) \<and> probe out = Some pg \<and>
           network pg = (if protocol p \<in> {''v6'', ''6'', ''ip6''} then ''ip6'' else ''ip4'')"
proof -
  obtain p lg where p: "parseParams L q = Inr (p, lg)"
    and pr: "probe out = Some (configure W p)"
    using PingHandler_parse [OF assms] by blast
  show ?thesis
    using p pr network_configure [of W p] by auto
qed

lemma example_resolved:
  "parseParams go [(''target'', [''example.com''])] =
     Inr (\<lparr>target = ''example.com'', timeout = 10000000000, interval = 1000000000, count = 5,
           psize = 56, ttl = 64, protocol = ''ip4'', packet = ''icmp''\<rparr>, [])"
  by (simp add: resolver_eval)

lemma world_finished_Run:
  "0 < timeout p \<Longrightarrow> 0 < interval p \<Longrightarrow>
     Run (world_finished n t) (configure (world_finished n t) p) =
       Inr (Some \<lparr>recv = n, stats = some_stats\<rparr>, None)"
  by (simp add: world_finished_def tickers_panic_def Timeout_configure Interval_configure)

text \<open>
  C1, as amended. For a probe that has finished with at least one packet received, when
  the elapsed time read at the test for success is strictly less than the timeout, the
  success gauge of the response is 1 and the timeout gauge is 0.
\<close>

theorem success_before_timeout:
  assumes "PingHandler L W q h = Inr out" and "probe out = Some pg"
    and "Run W pg = Inr (Some fin, err)" and "0 < recv fin"
    and "since_success_check W < Timeout pg"
  shows "metric out ''ping_success'' = Some 1 \<and> metric out ''ping_timeout'' = Some 0"
proof -
  obtain p lg r e where p: "parseParams L q = Inr (p, lg)"
    and pr: "probe out = Some (configure W p)"
    and run: "Run W (configure W p) = Inr (r, e)"
    using PingHandler_parse [OF assms(1)] by blast
  from PingHandler_body [OF p run, of h] assms pr run
  show ?thesis
    by (auto simp: metric_def Timeout_configure)
qed

theorem success_before_timeout_witness:
  "map_option Timeout (probe_of (PingHandler go (world_finished 1 (2 * Second))
      [(''target'', [''example.com''])] empty_store)) = Some (10 * Second) \<and>
   since_success_check (world_finished 1 (2 * Second)) = 2 * Second \<and>
   metric_of (PingHandler go (world_finished 1 (2 * Second))
      [(''target'', [''example.com''])] empty_store) ''ping_success'' = Some 1 \<and>
   metric_of (PingHandler go (world_finished 1 (2 * Second))
      [(''target'', [''example.com''])] empty_store) ''ping_timeout'' = Some 0"
proof -
  let ?W = "world_finished 1 (2 * Second)"
  let ?p = "\<lparr>target = ''example.com'', timeout = 10000000000, interval = 1000000000, count = 5,
       psize = 56, ttl = 64, protocol = ''ip4'', packet = ''icmp''\<rparr>"
  have r: "Run ?W (configure ?W ?p) = Inr (Some \<lparr>recv = 1, stats = some_stats\<rparr>, None)"
    by (simp add: world_finished_Run)
  from PingHandler_body [OF example_resolved r, of empty_store] obtain out where
    o: "PingHandler go ?W [(''target'', [''example.com''])] empty_store = Inr out"
    and pr: "probe out = Some (configure ?W ?p)"
    by blast
  have n: "0 < recv \<lparr>recv = 1, stats = some_stats\<rparr>"
    by simp
  have t: "since_success_check ?W < Timeout (configure ?W ?p)"
    by (simp add: Timeout_configure world_finished_def Second_def)
  from success_before_timeout [OF o pr r n t]
  show ?thesis
    using o pr by (simp add: probe_of_def metric_of_def Timeout_configure Second_def
        world_finished_def)
qed

text \<open>
  C1 as stated fails at the boundary. A probe that receives one packet and finishes when
  the elapsed time is exactly the timeout of 10 s: the handler leaves both gauges at 0,
  the values of a probe without a reply.
\<close>

theorem boundary_not_success:
  "map_option Timeout (probe_of (PingHandler go (world_finished 1 (10 * Second))
      [(''target'', [''example.com''])] empty_store)) = Some (10 * Second) \<and>
   since_success_check (world_finished 1 (10 * Second)) = 10 * Second \<and>
   Run (world_finished 1 (10 * Second)) (configure (world_finished 1 (10 * Second))
      \<lparr>target = ''example.com'', timeout = 10000000000, interval = 1000000000, count = 5,
       psize = 56, ttl = 64, protocol = ''ip4'', packet = ''icmp''\<rparr>) =
      Inr (Some \<lparr>recv = 1, stats = some_stats\<rparr>, None) \<and>
   metric_of (PingHandler go (world_finished 1 (10 * Second))
      [(''target'', [''example.com''])] empty_store) ''ping_success'' = Some 0 \<and>
   metric_of (PingHandler go (world_finished 1 (10 * Second))
      [(''target'', [''example.com''])] empty_store) ''ping_timeout'' = Some 0"
proof -
  let ?W = "world_finished 1 (10 * Second)"
  let ?p = "\<lparr>target = ''example.com'', timeout = 10000000000, interval = 1000000000, count = 5,
       psize = 56, ttl = 64, protocol = ''ip4'', packet = ''icmp''\<rparr>"
  have r: "Run ?W (configure ?W ?p) = Inr (Some \<lparr>recv = 1, stats = some_stats\<rparr>, None)"
    by (simp add: world_finished_Run)
  from PingHandler_body [OF example_resolved r, of empty_store] r
  show ?thesis
    by (auto simp: probe_of_def metric_of_def metric_def world_finished_def Timeout_configure
        Second_def)
qed

text \<open>
  C2. For a probe that has finished: when the elapsed time exceeds the timeout at the
  first reading of the clock, and the clock does not run backwards, the timeout gauge is
  1 and the success gauge is 0, whatever the number of packets received. With no packet
  received, the reading at the test for a timeout decides alone: over the timeout it is
  a timeout, otherwise both gauges are 0.
\<close>

theorem timeout_before_no_reply:
  assumes "PingHandler L W q h = Inr out" and "probe out = Some pg"
    and "Run W pg = Inr (Some fin, err)"
  shows "(Timeout pg < since_success_check W \<and> since_success_check W \<le> since_timeout_check W
            \<longrightarrow> metric out ''ping_timeout'' = Some 1 \<and> metric out ''ping_success'' = Some 0) \<and>
         (recv fin = 0 \<and> Timeout pg < since_timeout_check W
            \<longrightarrow> metric out ''ping_timeout'' = Some 1 \<and> metric out ''ping_success'' = Some 0) \<and>
         (recv fin = 0 \<and> since_timeout_check W \<le> Timeout pg
            \<longrightarrow> metric out ''ping_timeout'' = Some 0 \<and> metric out ''ping_success'' = Some 0)"
proof -
  obtain p lg r e where p: "parseParams L q = Inr (p, lg)"
    and pr: "probe out = Some (configure W p)"
    and run: "Run W (configure W p) = Inr (r, e)"
    using PingHandler_parse [OF assms(1)] by blast
  from PingHandler_body [OF p run, of h] assms pr run
  show ?thesis
    by (auto simp: metric_def Timeout_configure)
qed

theorem timeout_before_no_reply_witness:
  "map_option Timeout (probe_of (PingHandler go (world_finished 0 (11 * Second))
      [(''target'', [''example.com''])] empty_store)) = Some (10 * Second) \<and>
   Run (world_finished 0 (11 * Second)) (configure (world_finished 0 (11 * Second))
      \<lparr>target = ''example.com'', timeout = 10000000000, interval = 1000000000, count = 5,
       psize = 56, ttl = 64, protocol = ''ip4'', packet = ''icmp''\<rparr>) =
      Inr (Some \<lparr>recv = 0, stats = some_stats\<rparr>, None) \<and>
   metric_of (PingHandler go (world_finished 0 (11 * Second))
      [(''target'', [''example.com''])] empty_store) ''ping_timeout'' = Some 1 \<and>
   metric_of (PingHandler go (world_finished 0 (11 * Second))
      [(''target'', [''example.com''])] empty_store) ''ping_success'' = Some 0"
proof -
  let ?W = "world_finished 0 (11 * Second)"
  let ?p = "\<lparr>target = ''example.com'', timeout = 10000000000, interval = 1000000000, count = 5,
       psize = 56, ttl = 64, protocol = ''ip4'', packet = ''icmp''\<rparr>"
  have r: "Run ?W (configure ?W ?p) = Inr (Some \<lparr>recv = 0, stats = some_stats\<rparr>, None)"
    by (simp add: world_finished_Run)
  from PingHandler_body [OF example_resolved r, of empty_store] obtain out where
    o: "PingHandler go ?W [(''target'', [''example.com''])] empty_store = Inr out"
    and pr: "probe out = Some (configure ?W ?p)"
    by blast
  have t: "Timeout (configure ?W ?p) < since_success_check ?W \<and>
           since_success_check ?W \<le> since_timeout_check ?W"
    by (simp add: Timeout_configure world_finished_def Second_def)
  from timeout_before_no_reply [OF o pr r] t
  have "metric out ''ping_timeout'' = Some 1 \<and> metric out ''ping_success'' = Some 0"
    by blast
  then show ?thesis
    using o pr r by (simp add: probe_of_def metric_of_def Timeout_configure Second_def)
qed

section \<open>What the resolver checks, and what it does not\<close>

text \<open>
  The count and the size of a descriptor are in range after every key: a value out of
  range is replaced by the default.
\<close>

lemma switch_in_range:
  assumes "parseParams_switch L (p, lg) (k, v) = Inr (p', lg')"
    and "0 < count p \<and> 24 \<le> psize p \<and> psize p \<le> 65507"
  shows "0 < count p' \<and> 24 \<le> psize p' \<and> psize p' \<le> 65507"
proof (cases v)
  case Nil
  then show ?thesis using assms switch_empty by blast
next
  case (Cons v0 vs)
  show ?thesis
    using assms
    by (cases "ToLower L k" rule: key_cases)
       (auto simp: Cons switch_eqs defaultCount_def defaultSize_def maxPacketSize_def
          minPacketSize_def split: if_splits)
qed

lemma count_size_in_range:
  assumes "parseParams L q = Inr (p, lg)"
  shows "0 < count p \<and> 24 \<le> psize p \<and> psize p \<le> 65507"
proof -
  have "0 < count (fst (p, lg)) \<and> 24 \<le> psize (fst (p, lg)) \<and> psize (fst (p, lg)) \<le> 65507"
  proof (rule range_loop_invariant
      [where I = "\<lambda>s. 0 < count (fst s) \<and> 24 \<le> psize (fst s) \<and> psize (fst s) \<le> 65507"])
    show "range_loop (parseParams_switch L) (defaults q, []) q = Inr (p, lg)"
      using assms by (simp add: parseParams_def)
  next
    show "0 < count (fst (defaults q, [])) \<and> 24 \<le> psize (fst (defaults q, [])) \<and>
          psize (fst (defaults q, [])) \<le> 65507"
      by (simp add: defaults_def defaultCount_def defaultSize_def)
  next
    fix a x b
    assume "0 < count (fst a) \<and> 24 \<le> psize (fst a) \<and> psize (fst a) \<le> 65507"
      and "parseParams_switch L a x = Inr b"
    then show "0 < count (fst b) \<and> 24 \<le> psize (fst b) \<and> psize (fst b) \<le> 65507"
      using switch_in_range [of L "fst a" "snd a" "fst x" "snd x" "fst b" "snd b"] by simp
  qed
  then show ?thesis by simp
qed

text \<open>
  C4. The resolver of \<open>internal/collector/icmp_collector.go\<close> checks the count and the
  size and replaces a value out of range by the default: \<open>count=0\<close> gives 5 and
  \<open>size=10\<close> gives 56. It does not check the timeout and the interval: \<open>timeout=-5s\<close>
  and \<open>interval=0\<close> are durations that \<open>time.ParseDuration\<close> accepts, and the descriptor
  holds \<open>-5s\<close> and 0. The handler hands them to the pinger, whose \<open>Run\<close> starts a ticker
  with each and panics on a duration that is not positive: the request
  \<open>target=example.com&timeout=-5s\<close> gets no response.
\<close>

theorem timeout_not_positive:
  "map_option timeout (descriptor (parseParams go
      [(''target'', [''example.com'']), (''timeout'', [''-5s''])])) = Some (- 5000000000) \<and>
   map_option interval (descriptor (parseParams go [(''interval'', [''0''])])) = Some 0 \<and>
   map_option count (descriptor (parseParams go [(''count'', [''0''])])) = Some 5 \<and>
   map_option psize (descriptor (parseParams go [(''size'', [''10''])])) = Some 56 \<and>
   PingHandler go (world_finished 1 Second)
      [(''target'', [''example.com'']), (''timeout'', [''-5s''])] empty_store =
      Inl NonPositiveTicker"
proof -
  let ?W = "world_finished 1 Second"
  let ?p = "\<lparr>target = ''example.com'', timeout = - 5000000000, interval = 1000000000,
       count = 5, psize = 56, ttl = 64, protocol = ''ip4'', packet = ''icmp''\<rparr>"
  have p: "parseParams go [(''target'', [''example.com'']), (''timeout'', [''-5s''])] =
      Inr (?p, [])"
    by (simp add: resolver_eval)
  have r: "Run ?W (configure ?W ?p) = Inl NonPositiveTicker"
    by (simp add: world_finished_def tickers_panic_def Timeout_configure)
  have "PingHandler go ?W [(''target'', [''example.com'']), (''timeout'', [''-5s''])]
      empty_store = Inl NonPositiveTicker"
    by (rule PingHandler_Run_panic [OF p r])
  moreover have "map_option interval (descriptor (parseParams go [(''interval'', [''0''])])) =
      Some 0"
    by (simp add: resolver_eval)
  moreover have "map_option count (descriptor (parseParams go [(''count'', [''0''])])) = Some 5"
    by (simp add: resolver_eval)
  moreover have "map_option psize (descriptor (parseParams go [(''size'', [''10''])])) = Some 56"
    by (simp add: resolver_eval)
  ultimately show ?thesis
    by (simp add: p descriptor_def)
qed

section \<open>The handler of \<open>unnamed/part_000\<close>\<close>

lemma package_vars_cells:
  "package_vars g = (G, g') \<Longrightarrow>
     probeDurationGauge G = \<lparr>fqName = ''ping_duration_seconds'', cell = next_gauge g\<rparr> \<and>
     minGauge G = \<lparr>fqName = ''ping_rtt_min_seconds'', cell = next_gauge g + 1\<rparr> \<and>
     maxGauge G = \<lparr>fqName = ''ping_rtt_max_seconds'', cell = next_gauge g + 2\<rparr> \<and>
     avgGauge G = \<lparr>fqName = ''ping_rtt_avg_seconds'', cell = next_gauge g + 3\<rparr> \<and>
     stddevGauge G = \<lparr>fqName = ''ping_rtt_std_deviation'', cell = next_gauge g + 4\<rparr> \<and>
     lossGauge G = \<lparr>fqName = ''ping_loss_ratio'', cell = next_gauge g + 5\<rparr> \<and>
     next_gauge g' = next_gauge g + 6 \<and>
     (\<forall>a. gauge_val g' a =
        (if next_gauge g \<le> a \<and> a < next_gauge g + 6 then 0 else gauge_val g a))"
  by (auto simp: package_vars_def NewGauge_def namespace_unnamed_def)

lemma G0_cells:
  "probeDurationGauge G0 = \<lparr>fqName = ''ping_duration_seconds'', cell = 0\<rparr> \<and>
   minGauge G0 = \<lparr>fqName = ''ping_rtt_min_seconds'', cell = 1\<rparr> \<and>
   maxGauge G0 = \<lparr>fqName = ''ping_rtt_max_seconds'', cell = 2\<rparr> \<and>
   avgGauge G0 = \<lparr>fqName = ''ping_rtt_avg_seconds'', cell = 3\<rparr> \<and>
   stddevGauge G0 = \<lparr>fqName = ''ping_rtt_std_deviation'', cell = 4\<rparr> \<and>
   lossGauge G0 = \<lparr>fqName = ''ping_loss_ratio'', cell = 5\<rparr> \<and>
   (\<forall>a. gauge_val h0 a = 0)"
  using package_vars_cells [of empty_store G0 h0]
  by (simp add: G0_def h0_def empty_store_def)

text \<open>The six gauges of the package, gathered: sorted by name.\<close>

lemma Gather_six:
  "Gather h
     [\<lparr>fqName = ''ping_duration_seconds'', cell = a0\<rparr>,
      \<lparr>fqName = ''ping_rtt_min_seconds'', cell = a1\<rparr>,
      \<lparr>fqName = ''ping_rtt_max_seconds'', cell = a2\<rparr>,
      \<lparr>fqName = ''ping_rtt_avg_seconds'', cell = a3\<rparr>,
      \<lparr>fqName = ''ping_rtt_std_deviation'', cell = a4\<rparr>,
      \<lparr>fqName = ''ping_loss_ratio'', cell = a5\<rparr>] =
     [(''ping_duration_seconds'', gauge_val h a0), (''ping_loss_ratio'', gauge_val h a5),
      (''ping_rtt_avg_seconds'', gauge_val h a3), (''ping_rtt_max_seconds'', gauge_val h a2),
      (''ping_rtt_min_seconds'', gauge_val h a1),
      (''ping_rtt_std_deviation'', gauge_val h a4)]"
  by (simp add: Gather_def)

text \<open>
  The duration gauge in the response of this handler, when \<open>Run\<close> returned no error:
  the elapsed time.
\<close>

lemma PingHandler_unnamed_duration:
  assumes "package_vars g = (G, g')" and "PingHandler_unnamed L W G q h = Inr out"
    and "probe out = Some pg" and "Run_Statistics W pg = Inr (Inr st)"
  shows "metric out ''ping_duration_seconds'' = Some (Seconds (since W))"
  using assms(2,3,4) package_vars_cells [OF assms(1)]
  by (auto simp: PingHandler_unnamed_def metric_def serveMetricsWithError_def Gather_six
      Gauge_Set_def Let_def split: sum.splits prod.splits if_splits)

text \<open>The two requests of the evaluations below, on the package variables of a new process.\<close>

lemma parse_unnamed_example:
  "parseParams_unnamed go [(''target'', [''example.com''])] =
     Inr (\<lparr>target = ''example.com'', timeout = 10000000000, interval = 1000000000, count = 5,
           psize = 56, ttl = 64, protocol = ''ip4'', packet = ''icmp''\<rparr>, [])"
  by (simp add: resolver_eval)

lemma parse_unnamed_nowhere:
  "parseParams_unnamed go [(''target'', [''nowhere.invalid''])] =
     Inr (\<lparr>target = ''nowhere.invalid'', timeout = 10000000000, interval = 1000000000,
           count = 5, psize = 56, ttl = 64, protocol = ''ip4'', packet = ''icmp''\<rparr>, [])"
  by (simp add: resolver_eval)

lemmas handler_unnamed_eval =
  PingHandler_unnamed_def two_requests_unnamed_def G0_cells serveMetricsWithError_def
  Gather_six Gauge_Set_def SetPrivileged_def Let_def world_unnamed_up_def
  world_unnamed_down_def tickers_panic_def resolve_example_def probing_New_def some_stats_def Seconds_def
  Millisecond_def Second_def metric_of_def metric_def probe_of_def response_of_def

lemma first_request_unnamed:
  "PingHandler_unnamed go world_unnamed_up G0 [(''target'', [''example.com''])] h0 =
     Inr \<lparr>store_after =
            h0\<lparr>gauge_val := (gauge_val h0)
                 (1 := 1 / 1000, 3 := 2 / 1000, 2 := 3 / 1000, 4 := 1000000, 5 := 25, 0 := 3)\<rparr>,
          probe = Some \<lparr>addr = ''192.0.2.1'', Count = 5, Size = 56, Interval = 1000000000,
                        Timeout = 10000000000, TTL = 64, privileged = False,
                        network = ''ip'', PacketsRecv = 0\<rparr>,
          resp = \<lparr>status = 200,
                  body = [(''ping_duration_seconds'', 3), (''ping_loss_ratio'', 25),
                          (''ping_rtt_avg_seconds'', 2 / 1000),
                          (''ping_rtt_max_seconds'', 3 / 1000),
                          (''ping_rtt_min_seconds'', 1 / 1000),
                          (''ping_rtt_std_deviation'', 1000000)]\<rparr>\<rparr>"
  by (simp add: parse_unnamed_example handler_unnamed_eval)

lemma second_request_unnamed:
  "two_requests_unnamed go G0 world_unnamed_up [(''target'', [''example.com''])]
     world_unnamed_down [(''target'', [''nowhere.invalid''])] h0 =
     Inr \<lparr>store_after =
            h0\<lparr>gauge_val := (gauge_val h0)
                 (1 := 1 / 1000, 3 := 2 / 1000, 2 := 3 / 1000, 4 := 1000000, 5 := 25, 0 := 3)\<rparr>,
          probe = None,
          resp = \<lparr>status = 200,
                  body = [(''ping_duration_seconds'', 3), (''ping_loss_ratio'', 25),
                          (''ping_rtt_avg_seconds'', 2 / 1000),
                          (''ping_rtt_max_seconds'', 3 / 1000),
                          (''ping_rtt_min_seconds'', 1 / 1000),
                          (''ping_rtt_std_deviation'', 1000000)]\<rparr>\<rparr>"
proof -
  have "two_requests_unnamed go G0 world_unnamed_up [(''target'', [''example.com''])]
     world_unnamed_down [(''target'', [''nowhere.invalid''])] h0 =
     PingHandler_unnamed go world_unnamed_down G0 [(''target'', [''nowhere.invalid''])]
       (h0\<lparr>gauge_val := (gauge_val h0)
                 (1 := 1 / 1000, 3 := 2 / 1000, 2 := 3 / 1000, 4 := 1000000, 5 := 25, 0 := 3)\<rparr>)"
    by (simp only: two_requests_unnamed_def first_request_unnamed sum.case outcome.simps)
  then show ?thesis
    by (simp add: parse_unnamed_nowhere PingHandler_unnamed_def G0_cells
        serveMetricsWithError_def Gather_six world_unnamed_down_def)
qed

text \<open>
  C5. The default request (packet \<open>icmp\<close>, protocol \<open>ip4\<close>): the handler of
  \<open>unnamed/part_000\<close> compares the protocol, not the packet, with \<open>icmp\<close>, and runs the
  probe unprivileged; the handler of \<open>internal/collector/icmp_collector.go\<close> compares
  the packet and runs the probe privileged.
\<close>

theorem privileged_by_protocol_unnamed:
  "map_option packet (descriptor (parseParams_unnamed go [(''target'', [''example.com''])])) =
     Some ''icmp'' \<and>
   map_option privileged (probe_of (PingHandler_unnamed go world_unnamed_up G0
     [(''target'', [''example.com''])] h0)) = Some False \<and>
   map_option privileged (probe_of (PingHandler go (world_finished 1 Second)
     [(''target'', [''example.com''])] empty_store)) = Some True"
proof -
  let ?W = "world_finished 1 Second"
  let ?p = "\<lparr>target = ''example.com'', timeout = 10000000000, interval = 1000000000, count = 5,
       psize = 56, ttl = 64, protocol = ''ip4'', packet = ''icmp''\<rparr>"
  have r: "Run ?W (configure ?W ?p) = Inr (Some \<lparr>recv = 1, stats = some_stats\<rparr>, None)"
    by (simp add: world_finished_Run)
  from PingHandler_body [OF example_resolved r, of empty_store]
  have "map_option privileged (probe_of (PingHandler go (world_finished 1 Second)
     [(''target'', [''example.com''])] empty_store)) = Some True"
    by (auto simp: probe_of_def privileged_configure)
  then show ?thesis
    by (simp add: first_request_unnamed probe_of_def parse_unnamed_example descriptor_def)
qed

text \<open>
  C6. The handler of \<open>unnamed/part_000\<close> does not know the key \<open>prot\<close>: with
  \<open>prot=ip6\<close> the protocol stays \<open>ip4\<close> and the probe goes to the IPv4 address. It hands
  the protocol to the resolver as it is: with \<open>protocol=v6\<close> the resolver rejects the
  network name and no probe runs. The handler of
  \<open>internal/collector/icmp_collector.go\<close> selects \<open>ip6\<close> for both requests.
\<close>

theorem prot_alias_unnamed:
  "map_option protocol (descriptor (parseParams_unnamed go
     [(''target'', [''example.com'']), (''prot'', [''ip6''])])) = Some ''ip4'' \<and>
   map_option addr (probe_of (PingHandler_unnamed go world_unnamed_up G0
     [(''target'', [''example.com'']), (''prot'', [''ip6''])] h0)) = Some ''192.0.2.1'' \<and>
   probe_of (PingHandler_unnamed go world_unnamed_up G0
     [(''target'', [''example.com'']), (''protocol'', [''v6''])] h0) = None \<and>
   map_option network (probe_of (PingHandler go (world_finished 1 Second)
     [(''target'', [''example.com'']), (''prot'', [''ip6''])] empty_store)) = Some ''ip6'' \<and>
   map_option network (probe_of (PingHandler go (world_finished 1 Second)
     [(''target'', [''example.com'']), (''protocol'', [''v6''])] empty_store)) = Some ''ip6''"
proof -
  have p1: "parseParams go [(''target'', [''example.com'']), (''prot'', [''ip6''])] =
      Inr (\<lparr>target = ''example.com'', timeout = 10000000000, interval = 1000000000, count = 5,
            psize = 56, ttl = 64, protocol = ''ip6'', packet = ''icmp''\<rparr>, [])"
    by (simp add: resolver_eval)
  have p2: "parseParams go [(''target'', [''example.com'']), (''protocol'', [''v6''])] =
      Inr (\<lparr>target = ''example.com'', timeout = 10000000000, interval = 1000000000, count = 5,
            psize = 56, ttl = 64, protocol = ''v6'', packet = ''icmp''\<rparr>, [])"
    by (simp add: resolver_eval)
  have u1: "parseParams_unnamed go [(''target'', [''example.com'']), (''prot'', [''ip6''])] =
      Inr (\<lparr>target = ''example.com'', timeout = 10000000000, interval = 1000000000, count = 5,
            psize = 56, ttl = 64, protocol = ''ip4'', packet = ''icmp''\<rparr>, [])"
    by (simp add: resolver_eval)
  have u2: "parseParams_unnamed go [(''target'', [''example.com'']), (''protocol'', [''v6''])] =
      Inr (\<lparr>target = ''example.com'', timeout = 10000000000, interval = 1000000000, count = 5,
            psize = 56, ttl = 64, protocol = ''v6'', packet = ''icmp''\<rparr>, [])"
    by (simp add: resolver_eval)
  have a: "map_option addr (probe_of (PingHandler_unnamed go world_unnamed_up G0
     [(''target'', [''example.com'']), (''prot'', [''ip6''])] h0)) = Some ''192.0.2.1''"
    by (simp add: u1 handler_unnamed_eval)
  have b: "probe_of (PingHandler_unnamed go world_unnamed_up G0
     [(''target'', [''example.com'']), (''protocol'', [''v6''])] h0) = None"
    by (simp add: u2 handler_unnamed_eval)
  have r1: "Run (world_finished 1 Second) (configure (world_finished 1 Second)
      \<lparr>target = ''example.com'', timeout = 10000000000, interval = 1000000000, count = 5,
       psize = 56, ttl = 64, protocol = ''ip6'', packet = ''icmp''\<rparr>) =
      Inr (Some \<lparr>recv = 1, stats = some_stats\<rparr>, None)"
    by (simp add: world_finished_Run)
  have r2: "Run (world_finished 1 Second) (configure (world_finished 1 Second)
      \<lparr>target = ''example.com'', timeout = 10000000000, interval = 1000000000, count = 5,
       psize = 56, ttl = 64, protocol = ''v6'', packet = ''icmp''\<rparr>) =
      Inr (Some \<lparr>recv = 1, stats = some_stats\<rparr>, None)"
    by (simp add: world_finished_Run)
  from PingHandler_body [OF p1 r1, of empty_store]
  have c: "map_option network (probe_of (PingHandler go (world_finished 1 Second)
     [(''target'', [''example.com'']), (''prot'', [''ip6''])] empty_store)) = Some ''ip6''"
    by (auto simp: probe_of_def network_configure)
  from PingHandler_body [OF p2 r2, of empty_store]
  have d: "map_option network (probe_of (PingHandler go (world_finished 1 Second)
     [(''target'', [''example.com'']), (''protocol'', [''v6''])] empty_store)) = Some ''ip6''"
    by (auto simp: probe_of_def network_configure)
  show ?thesis
    using a b c d by (simp add: u1 descriptor_def)
qed

text \<open>
  C7. After a request that succeeded, a request whose target does not resolve: the
  handler of \<open>unnamed/part_000\<close> answers with status 200 and the gauges, and they hold
  the statistics of the request before, not zeros. No probe ran for this request.
\<close>

theorem stale_statistics_unnamed:
  "probe_of (two_requests_unnamed go G0 world_unnamed_up [(''target'', [''example.com''])]
     world_unnamed_down [(''target'', [''nowhere.invalid''])] h0) = None \<and>
   response_of (two_requests_unnamed go G0 world_unnamed_up [(''target'', [''example.com''])]
     world_unnamed_down [(''target'', [''nowhere.invalid''])] h0) =
     Some \<lparr>status = 200,
           body = [(''ping_duration_seconds'', 3), (''ping_loss_ratio'', 25),
                   (''ping_rtt_avg_seconds'', 2 / 1000), (''ping_rtt_max_seconds'', 3 / 1000),
                   (''ping_rtt_min_seconds'', 1 / 1000),
                   (''ping_rtt_std_deviation'', 1000000)]\<rparr>"
  by (simp add: second_request_unnamed probe_of_def response_of_def)

text \<open>
  C9. The same request, answered in a new process and answered after another request:
  the handler of \<open>unnamed/part_000\<close> gives two different responses, since its gauges are
  package variables that every request shares.
\<close>

theorem shared_gauges_unnamed:
  "metric_of (PingHandler_unnamed go world_unnamed_down G0
     [(''target'', [''nowhere.invalid''])] h0) ''ping_loss_ratio'' = Some 0 \<and>
   metric_of (two_requests_unnamed go G0 world_unnamed_up [(''target'', [''example.com''])]
     world_unnamed_down [(''target'', [''nowhere.invalid''])] h0) ''ping_loss_ratio'' = Some 25"
  by (simp add: second_request_unnamed metric_of_def metric_def)
     (simp add: parse_unnamed_nowhere PingHandler_unnamed_def G0_cells
        serveMetricsWithError_def Gather_six world_unnamed_down_def metric_def)

section \<open>The duration gauge and failed probes\<close>

text \<open>
  In \<open>internal/collector/icmp_collector.go\<close>, a probe that failed before \<open>OnFinish\<close>
  is answered with status 200 and every gauge at 0; and every query whose probe does not
  panic is answered with status 200 and the eight gauges.
\<close>

lemma failed_probe_served:
  assumes "PingHandler L W q h = Inr out" and "probe out = Some pg"
    and "Run W pg = Inr (None, err)"
  shows "status (resp out) = 200 \<and>
         body (resp out) =
           [(''ping_duration_seconds'', 0), (''ping_loss_ratio'', 0),
            (''ping_rtt_avg_seconds'', 0), (''ping_rtt_max_seconds'', 0),
            (''ping_rtt_min_seconds'', 0), (''ping_rtt_std_deviation'', 0),
            (''ping_success'', 0), (''ping_timeout'', 0)]"
proof -
  obtain p lg r e where p: "parseParams L q = Inr (p, lg)"
    and pr: "probe out = Some (configure W p)"
    and run: "Run W (configure W p) = Inr (r, e)"
    using PingHandler_parse [OF assms(1)] by blast
  from PingHandler_body [OF p run, of h] assms pr run
  show ?thesis by auto
qed

lemma always_served:
  assumes "Values_ok q" and "\<And>pg. \<exists>x. Run W pg = Inr x"
  shows "\<exists>out. PingHandler L W q h = Inr out \<and> status (resp out) = 200 \<and>
           map fst (body (resp out)) =
             [''ping_duration_seconds'', ''ping_loss_ratio'', ''ping_rtt_avg_seconds'',
              ''ping_rtt_max_seconds'', ''ping_rtt_min_seconds'', ''ping_rtt_std_deviation'',
              ''ping_success'', ''ping_timeout'']"
proof -
  have "[] \<notin> set (map snd q)"
    using assms(1) by (simp add: Values_ok_def)
  then obtain p lg where p: "parseParams L q = Inr (p, lg)"
    using parseParams_total by blast
  obtain r err where run: "Run W (configure W p) = Inr (r, err)"
    using assms(2) [of "configure W p"] by (metis prod.collapse)
  from PingHandler_body [OF p run, of h]
  show ?thesis
    by (cases r) auto
qed

lemma PingHandler_duration:
  assumes "PingHandler L W q h = Inr out" and "probe out = Some pg"
    and "Run W pg = Inr (r, err)"
  shows "metric out ''ping_duration_seconds'' =
     Some (case r of Some fin \<Rightarrow> Seconds (since_duration W) | None \<Rightarrow> 0)"
proof -
  obtain p lg r' e where p: "parseParams L q = Inr (p, lg)"
    and pr: "probe out = Some (configure W p)"
    and run: "Run W (configure W p) = Inr (r', e)"
    using PingHandler_parse [OF assms(1)] by blast
  from PingHandler_body [OF p run, of h] assms pr run
  show ?thesis
    by (cases r) (auto simp: metric_def)
qed

text \<open>
  C8, as amended. In \<open>internal/collector/icmp_collector.go\<close> the duration gauge of the
  response holds the elapsed time, in seconds, read at the end of \<open>OnFinish\<close>, for every
  probe that finishes, whatever its classification; when \<open>Run\<close> fails without calling
  \<open>OnFinish\<close> the gauge is 0. In \<open>unnamed/part_000\<close> the gauge holds the elapsed time
  when \<open>Run\<close> returned no error.
\<close>

theorem duration_of_finished_probe:
  assumes "PingHandler L W q h = Inr out" and "probe out = Some pg"
    and "Run W pg = Inr (r, err)"
    and "package_vars g = (G, g')" and "PingHandler_unnamed L W' G q' h' = Inr out'"
    and "probe out' = Some pg'" and "Run_Statistics W' pg' = Inr (Inr st)"
  shows "metric out ''ping_duration_seconds'' =
           Some (case r of Some fin \<Rightarrow> Seconds (since_duration W) | None \<Rightarrow> 0) \<and>
         metric out' ''ping_duration_seconds'' = Some (Seconds (since W'))"
  using PingHandler_duration [OF assms(1,2,3)]
    PingHandler_unnamed_duration [OF assms(4,5,6,7)]
  by simp

theorem duration_of_finished_probe_witness:
  "package_vars empty_store = (G0, h0) \<and>
   map_option Timeout (probe_of (PingHandler go (world_finished 0 (11 * Second))
     [(''target'', [''example.com''])] empty_store)) = Some (10 * Second) \<and>
   metric_of (PingHandler go (world_finished 0 (11 * Second))
     [(''target'', [''example.com''])] empty_store) ''ping_duration_seconds'' = Some 11 \<and>
   metric_of (PingHandler_unnamed go world_unnamed_up G0
     [(''target'', [''example.com''])] h0) ''ping_duration_seconds'' = Some 3"
proof -
  let ?W = "world_finished 0 (11 * Second)"
  let ?p = "\<lparr>target = ''example.com'', timeout = 10000000000, interval = 1000000000, count = 5,
       psize = 56, ttl = 64, protocol = ''ip4'', packet = ''icmp''\<rparr>"
  let ?pg' = "\<lparr>addr = ''192.0.2.1'', Count = 5, Size = 56,
        Interval = 1000000000, Timeout = 10000000000, TTL = 64, privileged = False,
        network = ''ip'', PacketsRecv = 0\<rparr>"
  have r: "Run ?W (configure ?W ?p) = Inr (Some \<lparr>recv = 0, stats = some_stats\<rparr>, None)"
    by (simp add: world_finished_Run)
  from PingHandler_body [OF example_resolved r, of empty_store] obtain out where
    o: "PingHandler go ?W [(''target'', [''example.com''])] empty_store = Inr out"
    and pr: "probe out = Some (configure ?W ?p)"
    by blast
  have pv: "package_vars empty_store = (G0, h0)"
    by (simp add: G0_def h0_def)
  obtain out' where o': "PingHandler_unnamed go world_unnamed_up G0
      [(''target'', [''example.com''])] h0 = Inr out'"
    and pr': "probe out' = Some ?pg'"
    using first_request_unnamed by simp
  have r': "Run_Statistics world_unnamed_up ?pg' = Inr (Inr some_stats)"
    by (simp add: world_unnamed_up_def tickers_panic_def)
  from duration_of_finished_probe [OF o pr r pv o' pr' r']
  show ?thesis
    using o pr o' pr' pv
    by (simp add: metric_of_def probe_of_def Timeout_configure world_finished_def
        world_unnamed_up_def Seconds_def Second_def)
qed

text \<open>
  C8 as stated fails. In \<open>internal/collector/icmp_collector.go\<close>, when \<open>Run\<close> fails
  before the probe starts, three seconds after the start, the duration gauge of the
  response is 0. In \<open>unnamed/part_000\<close>, when the target does not resolve, three seconds
  after the start, the duration gauge of the response is not the elapsed time either.
\<close>

theorem duration_zero_on_error:
  "Seconds (since_duration (world_failed (3 * Second))) = 3 \<and>
   metric_of (PingHandler go (world_failed (3 * Second))
     [(''target'', [''example.com''])] empty_store) ''ping_duration_seconds'' = Some 0 \<and>
   Seconds (since world_unnamed_down) = 3 \<and>
   metric_of (PingHandler_unnamed go world_unnamed_down G0
     [(''target'', [''nowhere.invalid''])] h0) ''ping_duration_seconds'' = Some 0"
proof -
  let ?W = "world_failed (3 * Second)"
  let ?p = "\<lparr>target = ''example.com'', timeout = 10000000000, interval = 1000000000, count = 5,
       psize = 56, ttl = 64, protocol = ''ip4'', packet = ''icmp''\<rparr>"
  have r: "Run ?W (configure ?W ?p) = Inr (None, Some (ErrOther ''socket: permission denied''))"
    by (simp add: world_failed_def)
  from PingHandler_body [OF example_resolved r, of empty_store]
  have a: "Seconds (since_duration ?W) = 3 \<and>
     metric_of (PingHandler go ?W [(''target'', [''example.com''])] empty_store)
       ''ping_duration_seconds'' = Some 0"
    by (auto simp: metric_of_def metric_def world_failed_def Seconds_def Second_def)
  have b: "Seconds (since world_unnamed_down) = 3"
    by (simp add: world_unnamed_down_def Seconds_def Second_def)
  have c: "metric_of (PingHandler_unnamed go world_unnamed_down G0
     [(''target'', [''nowhere.invalid''])] h0) ''ping_duration_seconds'' = Some 0"
    by (simp add: parse_unnamed_nowhere PingHandler_unnamed_def G0_cells
        serveMetricsWithError_def Gather_six world_unnamed_down_def metric_of_def metric_def)
  show ?thesis
    using a b c by simp
qed

section \<open>The protocol\<close>

lemma same_field_protocol:
  "same_field a ''protocol'' = (a = ''protocol'' \<or> a = ''prot'')"
  "same_field a ''prot'' = (a = ''protocol'' \<or> a = ''prot'')"
  by (auto simp: same_field_def)

text \<open>
  The resolver of \<open>internal/collector/icmp_collector.go\<close>: the protocol is the first
  value, in lower case, of the last key visited that folds to \<open>protocol\<close> or \<open>prot\<close>, or
  \<open>ip4\<close> when that value is empty; with no such key it is \<open>ip4\<close>.
\<close>

lemma protocol_resolved:
  assumes ok: "Values_ok q" and q: "q = q1 @ (k, v # vs) # q2"
    and key: "ToLower L k = ''protocol'' \<or> ToLower L k = ''prot''"
    and last: "\<forall>(k', v') \<in> set q2. ToLower L k' \<noteq> ''protocol'' \<and> ToLower L k' \<noteq> ''prot''"
  shows "\<exists>p lg. parseParams L q = Inr (p, lg) \<and>
           protocol p = (if ToLower L v = [] then ''ip4'' else ToLower L v)"
proof -
  have ne: "[] \<notin> set (map snd q)"
    using ok by (simp add: Values_ok_def)
  obtain p lg where r: "parseParams L (q1 @ (k, v # vs) # q2) = Inr (p, lg)"
    using parseParams_total [OF ne] q by blast
  have last': "\<forall>(k', v') \<in> set q2. \<not> same_field (ToLower L k') (ToLower L k)"
    using last key by (auto simp: same_field_protocol)
  from first_value_read(7) [OF r last' key]
  have "protocol p = (if ToLower L v = [] then ''ip4'' else ToLower L v)"
    by simp
  then show ?thesis using r q by blast
qed

lemma protocol_absent:
  assumes ok: "Values_ok q"
    and none: "\<forall>(k', v') \<in> set q. ToLower L k' \<noteq> ''protocol'' \<and> ToLower L k' \<noteq> ''prot''"
  shows "\<exists>p lg. parseParams L q = Inr (p, lg) \<and> protocol p = ''ip4''"
proof -
  have ne: "[] \<notin> set (map snd q)"
    using ok by (simp add: Values_ok_def)
  obtain p lg where r: "parseParams L q = Inr (p, lg)"
    using parseParams_total [OF ne] by blast
  then have l: "range_loop (parseParams_switch L) (defaults q, []) q = Inr (p, lg)"
    by (simp add: parseParams_def)
  have none': "\<forall>(k', v') \<in> set q. \<not> same_field (ToLower L k') ''protocol''"
    using none by (auto simp: same_field_protocol)
  from loop_keeps [OF l none']
  have "protocol p = ''ip4''"
    by (simp add: field_kept_def defaults_def defaultProtocol_def)
  then show ?thesis using r by blast
qed

text \<open>
  The handler of \<open>internal/collector/icmp_collector.go\<close> runs the probe on \<open>ip6\<close> when
  the first value of the protocol key visited last is \<open>v6\<close>, \<open>6\<close> or \<open>ip6\<close> in any
  letter case, and on \<open>ip4\<close> for every other value and when there is no such key.
\<close>

lemma family_selected:
  assumes "Values_ok q" and "q = q1 @ (k, v # vs) # q2"
    and "ToLower L k = ''protocol'' \<or> ToLower L k = ''prot''"
    and "\<forall>(k', v') \<in> set q2. ToLower L k' \<noteq> ''protocol'' \<and> ToLower L k' \<noteq> ''prot''"
    and "PingHandler L W q h = Inr out"
  shows "\<exists>pg. probe out = Some pg \<and>
           network pg = (if ToLower L v \<in> {''v6'', ''6'', ''ip6''} then ''ip6'' else ''ip4'')"
proof -
  obtain p lg where p: "parseParams L q = Inr (p, lg)"
    and pr: "protocol p = (if ToLower L v = [] then ''ip4'' else ToLower L v)"
    using protocol_resolved [OF assms(1,2,3,4)] by blast
  obtain p' lg' where p': "parseParams L q = Inr (p', lg')"
    and po: "probe out = Some (configure W p')"
    using PingHandler_parse [OF assms(5)] by blast
  have "p' = p" using p p' by simp
  then show ?thesis
    using pr po network_configure [of W p] by auto
qed

lemma family_default:
  assumes "Values_ok q"
    and "\<forall>(k', v') \<in> set q. ToLower L k' \<noteq> ''protocol'' \<and> ToLower L k' \<noteq> ''prot''"
    and "PingHandler L W q h = Inr out"
  shows "\<exists>pg. probe out = Some pg \<and> network pg = ''ip4''"
proof -
  obtain p lg where p: "parseParams L q = Inr (p, lg)" and pr: "protocol p = ''ip4''"
    using protocol_absent [OF assms(1,2)] by blast
  obtain p' lg' where p': "parseParams L q = Inr (p', lg')"
    and po: "probe out = Some (configure W p')"
    using PingHandler_parse [OF assms(3)] by blast
  have "p' = p" using p p' by simp
  then show ?thesis
    using pr po network_configure [of W p] by auto
qed

end
